theory Spec2Isabelle
  imports Complex_Main "HOL-Library.Monad_Syntax"
begin

section \<open>KGP_EQ: the equaliser's processor, its filter chains and its sample fifos\<close>

text \<open>
  A shallow embedding of \<^verbatim>\<open>KGP_EQ/Source/PluginProcessor.h\<close> and
  \<^verbatim>\<open>KGP_EQ/Source/PluginProcessor.cpp\<close>.

  Conventions.
  \<^item> A C++ \<^verbatim>\<open>float\<close> is a \<open>real\<close>: the functions modelled here copy, store and
    pass samples, frequencies and coefficients on, and compute nothing with them.
  \<^item> A member function takes the object and returns the updated object.
  \<^item> A function whose C++ behaviour is undefined on some input (a null or dangling
    pointer dereferenced, an index out of range, a failed \<^verbatim>\<open>jassert\<close>) returns an
    \<open>option\<close>, and \<open>None\<close> on that input.
  \<^item> The classes of the JUCE library that the two files use are not part of the
    repository. The ones whose behaviour the program's own code depends on step by step
    (\<^verbatim>\<open>juce::AbstractFifo\<close>, \<^verbatim>\<open>juce::AudioBuffer\<close>, the reference-counted
    coefficient pointer, \<^verbatim>\<open>juce::dsp::ProcessorChain\<close>) are modelled after the
    library; the numerical routines (filter design, the peak filter, the IIR
    difference equation) are parameters, collected in the record \<open>dsp\<close>.
\<close>

subsection \<open>\<^verbatim>\<open>juce::AbstractFifo\<close>\<close>

text \<open>
  The library's index bookkeeping for a ring of \<open>bufferSize\<close> slots. \<open>validStart\<close> is
  the read position and \<open>validEnd\<close> the write position. \<open>prepareToWrite\<close> grants at most
  \<open>freeSpace - 1\<close> slots: one slot of the ring always stays free, so that a full ring and
  an empty ring have different positions.
\<close>

record AbstractFifo =
  bufferSize :: int
  validStart :: int
  validEnd :: int

definition AbstractFifo_init :: "int \<Rightarrow> AbstractFifo" where
  "AbstractFifo_init capacity = \<lparr>bufferSize = capacity, validStart = 0, validEnd = 0\<rparr>"

definition getNumReady :: "AbstractFifo \<Rightarrow> int" where
  "getNumReady a =
     (let vs = validStart a; ve = validEnd a
      in if ve \<ge> vs then ve - vs else bufferSize a - (vs - ve))"

definition getFreeSpace :: "AbstractFifo \<Rightarrow> int" where
  "getFreeSpace a = bufferSize a - getNumReady a - 1"

text \<open>The four numbers that \<^verbatim>\<open>fifo.write(n)\<close> and \<^verbatim>\<open>fifo.read(n)\<close> hand back.\<close>

record ScopedReadWrite =
  startIndex1 :: int
  blockSize1 :: int
  startIndex2 :: int
  blockSize2 :: int

definition prepareToWrite :: "AbstractFifo \<Rightarrow> int \<Rightarrow> ScopedReadWrite" where
  "prepareToWrite a numToWrite =
     (let vs = validStart a; ve = validEnd a;
          freeSpace = (if ve \<ge> vs then bufferSize a - (ve - vs) else vs - ve);
          n = min numToWrite (freeSpace - 1)
      in if n \<le> 0
         then \<lparr>startIndex1 = 0, blockSize1 = 0, startIndex2 = 0, blockSize2 = 0\<rparr>
         else (let b1 = min (bufferSize a - ve) n; n' = n - b1
               in \<lparr>startIndex1 = ve, blockSize1 = b1, startIndex2 = 0,
                   blockSize2 = (if n' \<le> 0 then 0 else min n' vs)\<rparr>))"

definition finishedWrite :: "AbstractFifo \<Rightarrow> int \<Rightarrow> AbstractFifo" where
  "finishedWrite a numWritten =
     (let newEnd = validEnd a + numWritten
      in a\<lparr>validEnd := (if newEnd \<ge> bufferSize a then newEnd - bufferSize a else newEnd)\<rparr>)"

definition prepareToRead :: "AbstractFifo \<Rightarrow> int \<Rightarrow> ScopedReadWrite" where
  "prepareToRead a numWanted =
     (let vs = validStart a; ve = validEnd a;
          numReady = (if ve \<ge> vs then ve - vs else bufferSize a - (vs - ve));
          n = min numWanted numReady
      in if n \<le> 0
         then \<lparr>startIndex1 = 0, blockSize1 = 0, startIndex2 = 0, blockSize2 = 0\<rparr>
         else (let b1 = min (bufferSize a - vs) n; n' = n - b1
               in \<lparr>startIndex1 = vs, blockSize1 = b1, startIndex2 = 0,
                   blockSize2 = (if n' \<le> 0 then 0 else min n' ve)\<rparr>))"

definition finishedRead :: "AbstractFifo \<Rightarrow> int \<Rightarrow> AbstractFifo" where
  "finishedRead a numRead =
     (let newStart = validStart a + numRead
      in a\<lparr>validStart := (if newStart \<ge> bufferSize a then newStart - bufferSize a else newStart)\<rparr>)"

subsection \<open>\<^verbatim>\<open>Fifo<T>\<close>: the block fifo\<close>

text \<open>
  \<^verbatim>\<open>std::array<T, Capacity> buffers\<close> and \<^verbatim>\<open>juce::AbstractFifo fifo{Capacity}\<close>.
  \<^verbatim>\<open>fifo.write(1)\<close> and \<^verbatim>\<open>fifo.read(1)\<close> return a scoped object: the positions are
  computed when it is made, and its destructor, which runs when \<open>push\<close> or \<open>pull\<close>
  returns, commits \<open>blockSize1 + blockSize2\<close> items.
\<close>

definition Capacity :: int where
  "Capacity = 30"

record 'a Fifo =
  buffers :: "'a list"
  fifo :: AbstractFifo

definition Fifo_init :: "'a \<Rightarrow> 'a Fifo" where
  "Fifo_init t0 = \<lparr>buffers = replicate (nat Capacity) t0, fifo = AbstractFifo_init Capacity\<rparr>"

definition push :: "'a \<Rightarrow> 'a Fifo \<Rightarrow> bool \<times> 'a Fifo" where
  "push t f =
     (let write = prepareToWrite (fifo f) 1;
          committed = finishedWrite (fifo f) (blockSize1 write + blockSize2 write)
      in if blockSize1 write > 0
         then (True, \<lparr>buffers = (buffers f)[nat (startIndex1 write) := t], fifo = committed\<rparr>)
         else (False, f\<lparr>fifo := committed\<rparr>))"

text \<open>\<open>pull\<close> returns the result, the caller's destination \<open>t\<close> after the call, and the fifo.\<close>

definition pull :: "'a \<Rightarrow> 'a Fifo \<Rightarrow> bool \<times> 'a \<times> 'a Fifo" where
  "pull t f =
     (let read = prepareToRead (fifo f) 1;
          committed = finishedRead (fifo f) (blockSize1 read + blockSize2 read)
      in if blockSize1 read > 0
         then (True, buffers f ! nat (startIndex1 read), f\<lparr>fifo := committed\<rparr>)
         else (False, t, f\<lparr>fifo := committed\<rparr>))"

definition getNumAvailableForReading :: "'a Fifo \<Rightarrow> int" where
  "getNumAvailableForReading f = getNumReady (fifo f)"

text \<open>
  The states a \<open>Fifo\<close> can be in: the array has its \<open>Capacity\<close> elements and both
  positions are slots of the ring. The constructor establishes this, and \<open>push\<close> and
  \<open>pull\<close> keep it.
\<close>

definition Fifo_wf :: "'a Fifo \<Rightarrow> bool" where
  "Fifo_wf f =
     (length (buffers f) = nat Capacity \<and> bufferSize (fifo f) = Capacity \<and>
      0 \<le> validStart (fifo f) \<and> validStart (fifo f) < Capacity \<and>
      0 \<le> validEnd (fifo f) \<and> validEnd (fifo f) < Capacity)"

text \<open>The blocks queued and not yet pulled, oldest first.\<close>

definition queued :: "'a Fifo \<Rightarrow> 'a list" where
  "queued f =
     map (\<lambda>i. buffers f ! nat ((validStart (fifo f) + int i) mod Capacity))
       [0 ..< nat (getNumReady (fifo f))]"

text \<open>A producer pushing a list of blocks, and a consumer pulling \<open>n\<close> times.\<close>

fun pushes :: "'a list \<Rightarrow> 'a Fifo \<Rightarrow> bool list \<times> 'a Fifo" where
  "pushes [] f = ([], f)"
| "pushes (t # ts) f =
     (let (ok, f') = push t f; (oks, f'') = pushes ts f' in (ok # oks, f''))"

fun pulls :: "nat \<Rightarrow> 'a \<Rightarrow> 'a Fifo \<Rightarrow> 'a list \<times> 'a Fifo" where
  "pulls 0 t f = ([], f)"
| "pulls (Suc n) t f =
     (case pull t f of
        (True, t', f') \<Rightarrow> (let (ts, f'') = pulls n t' f' in (t' # ts, f''))
      | (False, t', f') \<Rightarrow> pulls n t' f')"

subsection \<open>\<^verbatim>\<open>juce::AudioBuffer<float>\<close>\<close>

text \<open>
  A buffer has a number of samples and one list of samples for each channel. Sizes and
  indices are \<open>nat\<close>: the library asserts that they are not negative. \<open>setSize\<close> is
  the call \<^verbatim>\<open>setSize (n, m, false, true, true)\<close> that both \<open>prepare\<close> functions make
  (do not keep the content, clear the space): it does nothing when the buffer already
  has that shape.
\<close>

record AudioBuffer =
  getNumSamples :: nat
  channelData :: "real list list"

definition AudioBuffer_init :: AudioBuffer where
  "AudioBuffer_init = \<lparr>getNumSamples = 0, channelData = []\<rparr>"

definition getNumChannels :: "AudioBuffer \<Rightarrow> nat" where
  "getNumChannels b = length (channelData b)"

definition setSize :: "nat \<Rightarrow> nat \<Rightarrow> AudioBuffer \<Rightarrow> AudioBuffer" where
  "setSize newNumChannels newNumSamples b =
     (if newNumSamples \<noteq> getNumSamples b \<or> newNumChannels \<noteq> getNumChannels b
      then \<lparr>getNumSamples = newNumSamples,
            channelData = replicate newNumChannels (replicate newNumSamples 0)\<rparr>
      else b)"

definition clear :: "AudioBuffer \<Rightarrow> AudioBuffer" where
  "clear b = b\<lparr>channelData := replicate (getNumChannels b) (replicate (getNumSamples b) 0)\<rparr>"

text \<open>\<^verbatim>\<open>buffer.clear (channel, 0, buffer.getNumSamples())\<close>\<close>

definition clearChannel :: "nat \<Rightarrow> AudioBuffer \<Rightarrow> AudioBuffer option" where
  "clearChannel channel b =
     (if channel < getNumChannels b
      then Some (b\<lparr>channelData := (channelData b)[channel := replicate (getNumSamples b) 0]\<rparr>)
      else None)"

definition setSample :: "nat \<Rightarrow> nat \<Rightarrow> real \<Rightarrow> AudioBuffer \<Rightarrow> AudioBuffer option" where
  "setSample destChannel destSample newValue b =
     (if destChannel < getNumChannels b \<and> destSample < getNumSamples b
      then Some (b\<lparr>channelData :=
             (channelData b)[destChannel := (channelData b ! destChannel)[destSample := newValue]]\<rparr>)
      else None)"

definition getReadPointer :: "AudioBuffer \<Rightarrow> nat \<Rightarrow> real list option" where
  "getReadPointer b channel =
     (if channel < getNumChannels b then Some (channelData b ! channel) else None)"

subsection \<open>\<^verbatim>\<open>SingleChannelSampleFifo<BlockType>\<close>: the sample fifo of one channel\<close>

text \<open>\<^verbatim>\<open>enum Channel { Right, Left }\<close>: \<open>Right\<close> is channel 0 and \<open>Left\<close> is channel 1.\<close>

datatype Channel = Right | Left

fun Channel_index :: "Channel \<Rightarrow> nat" where
  "Channel_index Right = 0"
| "Channel_index Left = 1"

record SingleChannelSampleFifo =
  channelToUse :: Channel
  fifoIndex :: nat
  audioBufferFifo :: "AudioBuffer Fifo"
  bufferToFill :: AudioBuffer
  prepared :: bool
  size_ :: nat

definition SingleChannelSampleFifo_init :: "Channel \<Rightarrow> SingleChannelSampleFifo" where
  "SingleChannelSampleFifo_init ch =
     \<lparr>channelToUse = ch, fifoIndex = 0, audioBufferFifo = Fifo_init AudioBuffer_init,
      bufferToFill = AudioBuffer_init, prepared = False, size_ = 0\<rparr>"

text \<open>\<^verbatim>\<open>Fifo::prepare (numChannels, numSamples)\<close>: every block is resized and cleared.\<close>

definition Fifo_prepare :: "nat \<Rightarrow> nat \<Rightarrow> AudioBuffer Fifo \<Rightarrow> AudioBuffer Fifo" where
  "Fifo_prepare numChannels numSamples f =
     f\<lparr>buffers := map (\<lambda>buffer. clear (setSize numChannels numSamples buffer)) (buffers f)\<rparr>"

definition prepare :: "nat \<Rightarrow> SingleChannelSampleFifo \<Rightarrow> SingleChannelSampleFifo" where
  "prepare newSize s =
     s\<lparr>size_ := newSize,
       bufferToFill := setSize 1 newSize (bufferToFill s),
       audioBufferFifo := Fifo_prepare 1 newSize (audioBufferFifo s),
       fifoIndex := 0,
       prepared := True\<rparr>"

definition pushNextSampleIntoFifo ::
  "real \<Rightarrow> SingleChannelSampleFifo \<Rightarrow> SingleChannelSampleFifo option" where
  "pushNextSampleIntoFifo sample s =
     (let s1 = (if fifoIndex s = getNumSamples (bufferToFill s)
                then (let (ok, q) = push (bufferToFill s) (audioBufferFifo s)
                      in s\<lparr>audioBufferFifo := q, fifoIndex := 0\<rparr>)
                else s)
      in case setSample 0 (fifoIndex s1) sample (bufferToFill s1) of
           None \<Rightarrow> None
         | Some b \<Rightarrow> Some (s1\<lparr>bufferToFill := b, fifoIndex := fifoIndex s1 + 1\<rparr>))"

text \<open>The loop of \<open>update\<close>: the samples of the channel, one after the other.\<close>

fun pushSamples :: "real list \<Rightarrow> SingleChannelSampleFifo \<Rightarrow> SingleChannelSampleFifo option" where
  "pushSamples [] s = Some s"
| "pushSamples (x # xs) s =
     (case pushNextSampleIntoFifo x s of None \<Rightarrow> None | Some s' \<Rightarrow> pushSamples xs s')"

definition update_fifo :: "AudioBuffer \<Rightarrow> SingleChannelSampleFifo \<Rightarrow> SingleChannelSampleFifo option" where
  "update_fifo buffer s =
     (if prepared s \<and> getNumChannels buffer > Channel_index (channelToUse s)
      then (case getReadPointer buffer (Channel_index (channelToUse s)) of
              None \<Rightarrow> None
            | Some channelPtr \<Rightarrow> pushSamples (take (getNumSamples buffer) channelPtr) s)
      else None)"

definition getNumCompleteBuffersAvailable :: "SingleChannelSampleFifo \<Rightarrow> int" where
  "getNumCompleteBuffersAvailable s = getNumAvailableForReading (audioBufferFifo s)"

definition getAudioBuffer ::
  "AudioBuffer \<Rightarrow> SingleChannelSampleFifo \<Rightarrow> bool \<times> AudioBuffer \<times> SingleChannelSampleFifo" where
  "getAudioBuffer buf s =
     (let (ok, buf', q) = pull buf (audioBufferFifo s) in (ok, buf', s\<lparr>audioBufferFifo := q\<rparr>))"

subsection \<open>Settings\<close>

text \<open>\<^verbatim>\<open>enum Slope { slope12, slope24, slope36, slope48 }\<close>, with the values 0 to 3.\<close>

datatype Slope = slope12 | slope24 | slope36 | slope48

fun Slope_index :: "Slope \<Rightarrow> nat" where
  "Slope_index slope12 = 0"
| "Slope_index slope24 = 1"
| "Slope_index slope36 = 2"
| "Slope_index slope48 = 3"

record ChainSettings =
  peakFreq :: real
  peakGainInDB :: real
  peakQuality :: real
  lowCutFrequency :: real
  highCutFrequency :: real
  lowCutSlope :: Slope
  highCutSlope :: Slope
  lowCutByPassed :: bool
  peakByPassed :: bool
  highCutByPassed :: bool

text \<open>The default member initialisers of the struct.\<close>

definition ChainSettings_init :: ChainSettings where
  "ChainSettings_init =
     \<lparr>peakFreq = 0, peakGainInDB = 0, peakQuality = 1,
      lowCutFrequency = 0, highCutFrequency = 0,
      lowCutSlope = slope12, highCutSlope = slope12,
      lowCutByPassed = False, peakByPassed = False, highCutByPassed = False\<rparr>"

text \<open>
  The parameter store maps a parameter's identifier to its current raw value.
  \<^verbatim>\<open>getRawParameterValue\<close> returns a null pointer for an identifier that the store does
  not have, and \<open>getChainSettings\<close> dereferences what it returns.
\<close>

type_synonym AudioProcessorValueTreeState = "string \<rightharpoonup> real"

definition getRawParameterValue :: "AudioProcessorValueTreeState \<Rightarrow> string \<Rightarrow> real option" where
  "getRawParameterValue apvts parameterID = apvts parameterID"

text \<open>
  \<^verbatim>\<open>static_cast<Slope> (x)\<close> of a \<^verbatim>\<open>float\<close>: the value is truncated towards zero, and
  the result is defined when it is the value of an enumerator.
\<close>

definition static_cast_Slope :: "real \<Rightarrow> Slope option" where
  "static_cast_Slope x =
     (let i = (if x \<ge> 0 then \<lfloor>x\<rfloor> else \<lceil>x\<rceil>)
      in if i = 0 then Some slope12
         else if i = 1 then Some slope24
         else if i = 2 then Some slope36
         else if i = 3 then Some slope48
         else None)"

definition getChainSettings :: "AudioProcessorValueTreeState \<Rightarrow> ChainSettings option" where
  "getChainSettings apvts = do {
     lcf \<leftarrow> getRawParameterValue apvts ''Low-Cut Frequency'';
     hcf \<leftarrow> getRawParameterValue apvts ''High-Cut Frequency'';
     lcsRaw \<leftarrow> getRawParameterValue apvts ''Low-Cut Slope'';
     lcs \<leftarrow> static_cast_Slope lcsRaw;
     hcsRaw \<leftarrow> getRawParameterValue apvts ''High-Cut Slope'';
     hcs \<leftarrow> static_cast_Slope hcsRaw;
     pf \<leftarrow> getRawParameterValue apvts ''Peak Frequency'';
     pg \<leftarrow> getRawParameterValue apvts ''Peak Gain'';
     pq \<leftarrow> getRawParameterValue apvts ''Peak Quality'';
     Some (ChainSettings_init
       \<lparr>peakFreq := pf, peakGainInDB := pg, peakQuality := pq,
        lowCutFrequency := lcf, highCutFrequency := hcf,
        lowCutSlope := lcs, highCutSlope := hcs\<rparr>)
   }"

text \<open>The store that \<open>createParameterLayout\<close> declares, at the default values.\<close>

definition createParameterLayout :: AudioProcessorValueTreeState where
  "createParameterLayout =
     [''Low-Cut Frequency'' \<mapsto> 20, ''High-Cut Frequency'' \<mapsto> 20000,
      ''Peak Frequency'' \<mapsto> 750, ''Peak Gain'' \<mapsto> 0, ''Peak Quality'' \<mapsto> 1,
      ''Low-Cut Slope'' \<mapsto> 0, ''High-Cut Slope'' \<mapsto> 0]"

subsection \<open>Coefficient objects and the pointers to them\<close>

text \<open>
  \<^verbatim>\<open>Coefficients = Filter::CoefficientsPtr\<close> is a reference-counted pointer to a coefficient
  object, and several pointers can refer to one object. A coefficient object is its array
  of numbers; the objects live in a store, an address is an index of the store, and a
  pointer is an address or null (\<open>None\<close>). \<open>alloc\<close> is \<^verbatim>\<open>new\<close>. Reclaiming an object
  that has no pointer left is not modelled: the object stays in the store, unreachable.
\<close>

type_synonym Coefficients = "real list"
type_synonym CoefficientsPtr = "nat option"
type_synonym store = "Coefficients list"

definition deref :: "store \<Rightarrow> CoefficientsPtr \<Rightarrow> Coefficients option" where
  "deref h p = (case p of None \<Rightarrow> None | Some a \<Rightarrow> if a < length h then Some (h ! a) else None)"

definition alloc :: "Coefficients \<Rightarrow> store \<Rightarrow> CoefficientsPtr \<times> store" where
  "alloc c h = (Some (length h), h @ [c])"

text \<open>
  \<^verbatim>\<open>*old = *new_;\<close> Both pointers are dereferenced and the object behind \<open>old\<close> is
  assigned the value of the object behind \<^verbatim>\<open>new_\<close> (here \<open>new'\<close>). \<open>old\<close> is passed
  by reference, so the model returns it too.
\<close>

definition updateCoefficients ::
  "CoefficientsPtr \<Rightarrow> CoefficientsPtr \<Rightarrow> store \<Rightarrow> (CoefficientsPtr \<times> store) option" where
  "updateCoefficients old new' h =
     (case old of
        None \<Rightarrow> None
      | Some a \<Rightarrow>
          (if a < length h
           then (case deref h new' of None \<Rightarrow> None | Some c \<Rightarrow> Some (old, h[a := c]))
           else None))"

subsection \<open>Filters and chains of filters\<close>

text \<open>
  \<^verbatim>\<open>Filter = juce::dsp::IIR::Filter<float>\<close>: the pointer to its coefficients and its
  history (the library's \<open>state\<close>). A new filter points to a new coefficient object of
  its own, the pass-through coefficients.
\<close>

record Filter =
  coefficients :: CoefficientsPtr
  state :: "real list"

definition Filter_init :: "store \<Rightarrow> Filter \<times> store" where
  "Filter_init h = (let (p, h') = alloc [1, 0, 0] h in (\<lparr>coefficients = p, state = [0]\<rparr>, h'))"

text \<open>
  \<^verbatim>\<open>CutFilter = juce::dsp::ProcessorChain<Filter, Filter, Filter, Filter>\<close>: four filters and
  one bypass flag for each. \<open>Index\<close> is the template argument of \<^verbatim>\<open>get<Index>\<close>,
  \<^verbatim>\<open>setBypassed<Index>\<close> and \<^verbatim>\<open>update<Index>\<close>.
\<close>

datatype Index = I0 | I1 | I2 | I3

fun Index_nat :: "Index \<Rightarrow> nat" where
  "Index_nat I0 = 0"
| "Index_nat I1 = 1"
| "Index_nat I2 = 2"
| "Index_nat I3 = 3"

record CutFilter =
  filter0 :: Filter
  filter1 :: Filter
  filter2 :: Filter
  filter3 :: Filter
  bypassed0 :: bool
  bypassed1 :: bool
  bypassed2 :: bool
  bypassed3 :: bool

fun get :: "Index \<Rightarrow> CutFilter \<Rightarrow> Filter" where
  "get I0 chain = filter0 chain"
| "get I1 chain = filter1 chain"
| "get I2 chain = filter2 chain"
| "get I3 chain = filter3 chain"

text \<open>A write through the reference that \<^verbatim>\<open>get<Index>()\<close> returns.\<close>

fun put :: "Index \<Rightarrow> Filter \<Rightarrow> CutFilter \<Rightarrow> CutFilter" where
  "put I0 flt chain = chain\<lparr>filter0 := flt\<rparr>"
| "put I1 flt chain = chain\<lparr>filter1 := flt\<rparr>"
| "put I2 flt chain = chain\<lparr>filter2 := flt\<rparr>"
| "put I3 flt chain = chain\<lparr>filter3 := flt\<rparr>"

fun setBypassed :: "Index \<Rightarrow> bool \<Rightarrow> CutFilter \<Rightarrow> CutFilter" where
  "setBypassed I0 b chain = chain\<lparr>bypassed0 := b\<rparr>"
| "setBypassed I1 b chain = chain\<lparr>bypassed1 := b\<rparr>"
| "setBypassed I2 b chain = chain\<lparr>bypassed2 := b\<rparr>"
| "setBypassed I3 b chain = chain\<lparr>bypassed3 := b\<rparr>"

fun isBypassed :: "Index \<Rightarrow> CutFilter \<Rightarrow> bool" where
  "isBypassed I0 chain = bypassed0 chain"
| "isBypassed I1 chain = bypassed1 chain"
| "isBypassed I2 chain = bypassed2 chain"
| "isBypassed I3 chain = bypassed3 chain"

definition CutFilter_init :: "store \<Rightarrow> CutFilter \<times> store" where
  "CutFilter_init h =
     (let (f0, h0) = Filter_init h; (f1, h1) = Filter_init h0;
          (f2, h2) = Filter_init h1; (f3, h3) = Filter_init h2
      in (\<lparr>filter0 = f0, filter1 = f1, filter2 = f2, filter3 = f3,
           bypassed0 = False, bypassed1 = False, bypassed2 = False, bypassed3 = False\<rparr>, h3))"

text \<open>
  The coefficient array that the design functions return is a
  \<^verbatim>\<open>juce::ReferenceCountedArray\<close>, whose \<^verbatim>\<open>operator[]\<close> returns a null pointer for an
  index out of range.
\<close>

definition array_get :: "CoefficientsPtr list \<Rightarrow> nat \<Rightarrow> CoefficientsPtr" where
  "array_get arr i = (if i < length arr then arr ! i else None)"

definition update ::
  "Index \<Rightarrow> CoefficientsPtr list \<Rightarrow> CutFilter \<Rightarrow> store \<Rightarrow> (CutFilter \<times> store) option" where
  "update i coeffs chain h = do {
     (p, h') \<leftarrow> updateCoefficients (coefficients (get i chain)) (array_get coeffs (Index_nat i)) h;
     Some (setBypassed i False (put i ((get i chain)\<lparr>coefficients := p\<rparr>) chain), h')
   }"

text \<open>The \<^verbatim>\<open>switch\<close> has no \<^verbatim>\<open>break\<close>: each case runs into the cases below it.\<close>

definition UpdateCutFilter ::
  "CutFilter \<Rightarrow> CoefficientsPtr list \<Rightarrow> Slope \<Rightarrow> store \<Rightarrow> (CutFilter \<times> store) option" where
  "UpdateCutFilter chain coeffs slope h =
     (let c = setBypassed I3 True (setBypassed I2 True (setBypassed I1 True
                (setBypassed I0 True chain)))
      in case slope of
           slope48 \<Rightarrow> do {
             (c3, h3) \<leftarrow> update I3 coeffs c h;
             (c2, h2) \<leftarrow> update I2 coeffs c3 h3;
             (c1, h1) \<leftarrow> update I1 coeffs c2 h2;
             update I0 coeffs c1 h1 }
         | slope36 \<Rightarrow> do {
             (c2, h2) \<leftarrow> update I2 coeffs c h;
             (c1, h1) \<leftarrow> update I1 coeffs c2 h2;
             update I0 coeffs c1 h1 }
         | slope24 \<Rightarrow> do {
             (c1, h1) \<leftarrow> update I1 coeffs c h;
             update I0 coeffs c1 h1 }
         | slope12 \<Rightarrow> update I0 coeffs c h)"

text \<open>
  \<^verbatim>\<open>MonoChain = juce::dsp::ProcessorChain<CutFilter, Filter, CutFilter>\<close>, with the
  positions \<open>LowCut\<close>, \<open>Peak\<close> and \<open>HighCut\<close>. The program never sets a bypass flag of
  a \<open>MonoChain\<close>, so its three flags stay false and are left out.
\<close>

record MonoChain =
  LowCut :: CutFilter
  Peak :: Filter
  HighCut :: CutFilter

definition MonoChain_init :: "store \<Rightarrow> MonoChain \<times> store" where
  "MonoChain_init h =
     (let (lc, h1) = CutFilter_init h; (pk, h2) = Filter_init h1; (hc, h3) = CutFilter_init h2
      in (\<lparr>LowCut = lc, Peak = pk, HighCut = hc\<rparr>, h3))"

subsection \<open>The numerical routines of the library\<close>

text \<open>
  The design functions return the coefficient arrays of new coefficient objects, in order;
  \<open>filterProcess\<close> is \<^verbatim>\<open>Filter::process\<close> on one block of samples: from the coefficients,
  whether the context is bypassed, the filter's history and the input it gives the new
  history and the output.
\<close>

record dsp =
  designIIRHighpassHighOrderButterworthMethod :: "real \<Rightarrow> real \<Rightarrow> int \<Rightarrow> Coefficients list"
  designIIRLowpassHighOrderButterworthMethod :: "real \<Rightarrow> real \<Rightarrow> int \<Rightarrow> Coefficients list"
  makePeakFilter :: "real \<Rightarrow> real \<Rightarrow> real \<Rightarrow> real \<Rightarrow> Coefficients"
  decibelsToGain :: "real \<Rightarrow> real"
  filterProcess :: "Coefficients \<Rightarrow> bool \<Rightarrow> real list \<Rightarrow> real list \<Rightarrow> real list \<times> real list"

definition makeLowCutFilter :: "dsp \<Rightarrow> ChainSettings \<Rightarrow> real \<Rightarrow> Coefficients list" where
  "makeLowCutFilter lib chainSettings sampleRate =
     designIIRHighpassHighOrderButterworthMethod lib (lowCutFrequency chainSettings) sampleRate
       (2 * (int (Slope_index (lowCutSlope chainSettings)) + 1))"

definition makeHighCutFilter :: "dsp \<Rightarrow> ChainSettings \<Rightarrow> real \<Rightarrow> Coefficients list" where
  "makeHighCutFilter lib chainSettings sampleRate =
     designIIRLowpassHighOrderButterworthMethod lib (highCutFrequency chainSettings) sampleRate
       (2 * (int (Slope_index (highCutSlope chainSettings)) + 1))"

text \<open>The new objects of a returned array, allocated in order.\<close>

fun allocArray :: "Coefficients list \<Rightarrow> store \<Rightarrow> CoefficientsPtr list \<times> store" where
  "allocArray [] h = ([], h)"
| "allocArray (c # cs) h =
     (let (p, h') = alloc c h; (ps, h'') = allocArray cs h' in (p # ps, h''))"

subsection \<open>Processing a block through a chain\<close>

definition Filter_process ::
  "dsp \<Rightarrow> store \<Rightarrow> bool \<Rightarrow> Filter \<Rightarrow> real list \<Rightarrow> (Filter \<times> real list) option" where
  "Filter_process lib h contextBypassed flt block =
     (case deref h (coefficients flt) of
        None \<Rightarrow> None
      | Some c \<Rightarrow> (let (st, out) = filterProcess lib c contextBypassed (state flt) block
                   in Some (flt\<lparr>state := st\<rparr>, out)))"

definition CutFilter_process ::
  "dsp \<Rightarrow> store \<Rightarrow> CutFilter \<Rightarrow> real list \<Rightarrow> (CutFilter \<times> real list) option" where
  "CutFilter_process lib h chain block = do {
     (f0, b0) \<leftarrow> Filter_process lib h (bypassed0 chain) (filter0 chain) block;
     (f1, b1) \<leftarrow> Filter_process lib h (bypassed1 chain) (filter1 chain) b0;
     (f2, b2) \<leftarrow> Filter_process lib h (bypassed2 chain) (filter2 chain) b1;
     (f3, b3) \<leftarrow> Filter_process lib h (bypassed3 chain) (filter3 chain) b2;
     Some (chain\<lparr>filter0 := f0, filter1 := f1, filter2 := f2, filter3 := f3\<rparr>, b3)
   }"

definition MonoChain_process ::
  "dsp \<Rightarrow> store \<Rightarrow> MonoChain \<Rightarrow> real list \<Rightarrow> (MonoChain \<times> real list) option" where
  "MonoChain_process lib h chain block = do {
     (lc, b0) \<leftarrow> CutFilter_process lib h (LowCut chain) block;
     (pk, b1) \<leftarrow> Filter_process lib h False (Peak chain) b0;
     (hc, b2) \<leftarrow> CutFilter_process lib h (HighCut chain) b1;
     Some (\<lparr>LowCut = lc, Peak = pk, HighCut = hc\<rparr>, b2)
   }"

subsection \<open>\<^verbatim>\<open>KGP_EQAudioProcessor\<close>\<close>

text \<open>
  The members of the class that the processing uses, the store of the coefficient
  objects, and what the base class \<^verbatim>\<open>juce::AudioProcessor\<close> answers to
  \<^verbatim>\<open>getSampleRate()\<close>, \<^verbatim>\<open>getTotalNumInputChannels()\<close> and
  \<^verbatim>\<open>getTotalNumOutputChannels()\<close>.
\<close>

record KGP_EQAudioProcessor =
  apvts :: AudioProcessorValueTreeState
  leftChannelFifo :: SingleChannelSampleFifo
  rightChannelFifo :: SingleChannelSampleFifo
  lChain :: MonoChain
  rChain :: MonoChain
  coefficientStore :: store
  getSampleRate :: real
  getTotalNumInputChannels :: nat
  getTotalNumOutputChannels :: nat

text \<open>The constructor: a stereo input and a stereo output bus, nothing prepared yet.\<close>

definition KGP_EQAudioProcessor_init :: KGP_EQAudioProcessor where
  "KGP_EQAudioProcessor_init =
     (let (l, h1) = MonoChain_init []; (r, h2) = MonoChain_init h1
      in \<lparr>apvts = createParameterLayout,
          leftChannelFifo = SingleChannelSampleFifo_init Left,
          rightChannelFifo = SingleChannelSampleFifo_init Right,
          lChain = l, rChain = r, coefficientStore = h2,
          getSampleRate = 0, getTotalNumInputChannels = 2, getTotalNumOutputChannels = 2\<rparr>)"

definition updatePeakFilter ::
  "dsp \<Rightarrow> ChainSettings \<Rightarrow> KGP_EQAudioProcessor \<Rightarrow> KGP_EQAudioProcessor option" where
  "updatePeakFilter lib chainSettings p =
     (let (peakCoefficients, h0) =
            alloc (makePeakFilter lib (getSampleRate p) (peakFreq chainSettings)
                     (peakQuality chainSettings)
                     (decibelsToGain lib (peakGainInDB chainSettings)))
              (coefficientStore p)
      in do {
        (pl, h1) \<leftarrow> updateCoefficients (coefficients (Peak (lChain p))) peakCoefficients h0;
        (pr, h2) \<leftarrow> updateCoefficients (coefficients (Peak (rChain p))) peakCoefficients h1;
        Some (p\<lparr>lChain := (lChain p)\<lparr>Peak := (Peak (lChain p))\<lparr>coefficients := pl\<rparr>\<rparr>,
                rChain := (rChain p)\<lparr>Peak := (Peak (rChain p))\<lparr>coefficients := pr\<rparr>\<rparr>,
                coefficientStore := h2\<rparr>)
      })"

definition updateLowCutFilter ::
  "dsp \<Rightarrow> ChainSettings \<Rightarrow> KGP_EQAudioProcessor \<Rightarrow> KGP_EQAudioProcessor option" where
  "updateLowCutFilter lib chainSettings p =
     (let (lowCutCoefficients, h0) =
            allocArray (designIIRHighpassHighOrderButterworthMethod lib
                          (lowCutFrequency chainSettings) (getSampleRate p)
                          (2 * (int (Slope_index (lowCutSlope chainSettings)) + 1)))
              (coefficientStore p)
      in do {
        (leftLowCut, h1) \<leftarrow>
          UpdateCutFilter (LowCut (lChain p)) lowCutCoefficients (lowCutSlope chainSettings) h0;
        (rightLowCut, h2) \<leftarrow>
          UpdateCutFilter (LowCut (rChain p)) lowCutCoefficients (lowCutSlope chainSettings) h1;
        Some (p\<lparr>lChain := (lChain p)\<lparr>LowCut := leftLowCut\<rparr>,
                rChain := (rChain p)\<lparr>LowCut := rightLowCut\<rparr>,
                coefficientStore := h2\<rparr>)
      })"

definition updateHighCutFilter ::
  "dsp \<Rightarrow> ChainSettings \<Rightarrow> KGP_EQAudioProcessor \<Rightarrow> KGP_EQAudioProcessor option" where
  "updateHighCutFilter lib chainSettings p =
     (let (highCutCoefficients, h0) =
            allocArray (designIIRLowpassHighOrderButterworthMethod lib
                          (highCutFrequency chainSettings) (getSampleRate p)
                          (2 * (int (Slope_index (highCutSlope chainSettings)) + 1)))
              (coefficientStore p)
      in do {
        (leftHighCut, h1) \<leftarrow>
          UpdateCutFilter (HighCut (lChain p)) highCutCoefficients (highCutSlope chainSettings) h0;
        (rightHighCut, h2) \<leftarrow>
          UpdateCutFilter (HighCut (rChain p)) highCutCoefficients (highCutSlope chainSettings) h1;
        Some (p\<lparr>lChain := (lChain p)\<lparr>HighCut := leftHighCut\<rparr>,
                rChain := (rChain p)\<lparr>HighCut := rightHighCut\<rparr>,
                coefficientStore := h2\<rparr>)
      })"

definition updateFilters :: "dsp \<Rightarrow> KGP_EQAudioProcessor \<Rightarrow> KGP_EQAudioProcessor option" where
  "updateFilters lib p = do {
     chainSettings \<leftarrow> getChainSettings (apvts p);
     p1 \<leftarrow> updateLowCutFilter lib chainSettings p;
     p2 \<leftarrow> updatePeakFilter lib chainSettings p1;
     updateHighCutFilter lib chainSettings p2
   }"

text \<open>
  \<open>isBusesLayoutSupported\<close>. The two preprocessor symbols come from the project's
  settings, which the two files do not hold, and are parameters.
\<close>

datatype AudioChannelSet = disabled | mono | stereo | discreteChannels nat

record BusesLayout =
  getMainInputChannelSet :: AudioChannelSet
  getMainOutputChannelSet :: AudioChannelSet

definition isBusesLayoutSupported :: "bool \<Rightarrow> bool \<Rightarrow> BusesLayout \<Rightarrow> bool" where
  "isBusesLayoutSupported JucePlugin_IsMidiEffect JucePlugin_IsSynth layouts =
     (if JucePlugin_IsMidiEffect then True
      else if getMainOutputChannelSet layouts \<noteq> mono \<and> getMainOutputChannelSet layouts \<noteq> stereo
      then False
      else if \<not> JucePlugin_IsSynth \<and>
              getMainOutputChannelSet layouts \<noteq> getMainInputChannelSet layouts
      then False
      else True)"

text \<open>
  \<open>processBlock\<close>. The loop clears the output channels that have no input;
  \<^verbatim>\<open>getSingleChannelBlock (i)\<close> is a view of channel \<open>i\<close> of the buffer, which has to
  exist, and each chain processes its view in place.
\<close>

fun clearChannels :: "nat list \<Rightarrow> AudioBuffer \<Rightarrow> AudioBuffer option" where
  "clearChannels [] buffer = Some buffer"
| "clearChannels (i # is) buffer =
     (case clearChannel i buffer of None \<Rightarrow> None | Some b \<Rightarrow> clearChannels is b)"

definition getSingleChannelBlock :: "AudioBuffer \<Rightarrow> nat \<Rightarrow> real list option" where
  "getSingleChannelBlock buffer channel =
     (if channel < getNumChannels buffer
      then Some (take (getNumSamples buffer) (channelData buffer ! channel))
      else None)"

definition processBlock ::
  "dsp \<Rightarrow> AudioBuffer \<Rightarrow> KGP_EQAudioProcessor \<Rightarrow> (AudioBuffer \<times> KGP_EQAudioProcessor) option" where
  "processBlock lib buffer p = do {
     buffer1 \<leftarrow> clearChannels [getTotalNumInputChannels p ..< getTotalNumOutputChannels p] buffer;
     p1 \<leftarrow> updateFilters lib p;
     lBlock \<leftarrow> getSingleChannelBlock buffer1 0;
     rBlock \<leftarrow> getSingleChannelBlock buffer1 1;
     (l, lOut) \<leftarrow> MonoChain_process lib (coefficientStore p1) (lChain p1) lBlock;
     (r, rOut) \<leftarrow> MonoChain_process lib (coefficientStore p1) (rChain p1) rBlock;
     Some (buffer1\<lparr>channelData := (channelData buffer1)[0 := lOut, 1 := rOut]\<rparr>,
           p1\<lparr>lChain := l, rChain := r\<rparr>)
   }"

text \<open>
  A stand-in for the numerical routines, for evaluating the program on examples: the
  design of order \<open>n\<close> gives \<open>n div 2\<close> second-order sections, as the Butterworth
  design of an even order does, and every filter passes its input through.
\<close>

definition example_dsp :: dsp where
  "example_dsp =
     \<lparr>designIIRHighpassHighOrderButterworthMethod =
        (\<lambda>frequency sampleRate order. replicate (nat (order div 2)) [1, 0, 0, 1, 0, 0]),
      designIIRLowpassHighOrderButterworthMethod =
        (\<lambda>frequency sampleRate order. replicate (nat (order div 2)) [1, 0, 0, 1, 0, 0]),
      makePeakFilter = (\<lambda>sampleRate frequency Q gainFactor. [1, 0, 0, 1, 0, 0]),
      decibelsToGain = (\<lambda>dB. 1),
      filterProcess = (\<lambda>c contextBypassed st block. (st, block))\<rparr>"

text \<open>
  A second stand-in, which makes visible what the program asks for and what it runs: each
  designed section holds the frequency, the sample rate, the order and its position in
  the array (the lowpass design with the frequency negated), the peak coefficients hold
  the four arguments, and a filter that is not bypassed doubles its input and keeps the
  input as its history.
\<close>

definition probe_dsp :: dsp where
  "probe_dsp =
     \<lparr>designIIRHighpassHighOrderButterworthMethod =
        (\<lambda>frequency sampleRate order.
           map (\<lambda>k. [frequency, sampleRate, of_int order, of_nat k]) [0 ..< nat (order div 2)]),
      designIIRLowpassHighOrderButterworthMethod =
        (\<lambda>frequency sampleRate order.
           map (\<lambda>k. [- frequency, sampleRate, of_int order, of_nat k]) [0 ..< nat (order div 2)]),
      makePeakFilter = (\<lambda>sampleRate frequency Q gainFactor. [sampleRate, frequency, Q, gainFactor]),
      decibelsToGain = (\<lambda>dB. dB + 1),
      filterProcess = (\<lambda>c contextBypassed st block.
         (block, if contextBypassed then block else map (\<lambda>x. 2 * x) block))\<rparr>"

section \<open>Properties\<close>

subsection \<open>Positions on a ring of 30 slots\<close>

lemma ring_wrap: "- 30 < (x::int) \<Longrightarrow> x < 0 \<Longrightarrow> x mod 30 = x + 30"
  by presburger

lemma ring_succ:
  assumes "(x::int) mod 30 < 29"
  shows "(x + 1) mod 30 = x mod 30 + 1"
proof -
  have "(x + 1) mod 30 = (x mod 30 + 1) mod 30" by (simp add: mod_simps)
  also have "\<dots> = x mod 30 + 1" using assms by (intro mod_pos_pos_trivial) simp_all
  finally show ?thesis .
qed

lemma ring_pred:
  assumes "0 < (x::int) mod 30"
  shows "(x - 1) mod 30 = x mod 30 - 1"
proof -
  have "x mod 30 < 30" by simp
  have "(x - 1) mod 30 = (x mod 30 - 1) mod 30" by (simp add: mod_simps)
  also have "\<dots> = x mod 30 - 1"
    using assms \<open>x mod 30 < 30\<close> by (intro mod_pos_pos_trivial) linarith+
  finally show ?thesis .
qed

lemma ring_succ_end:
  assumes "(e - s) mod 30 < 29"
  shows "((e + 1) mod 30 - s) mod 30 = (e - s) mod 30 + (1::int)"
proof -
  have "((e + 1) mod 30 - s) mod 30 = (e - s + 1) mod 30"
    by (simp add: mod_simps algebra_simps)
  with ring_succ [OF assms] show ?thesis by simp
qed

lemma ring_succ_start:
  assumes "0 < (e - s) mod 30"
  shows "(e - (s + 1) mod 30) mod 30 = (e - s) mod 30 - (1::int)"
proof -
  have "(e - (s + 1) mod 30) mod 30 = (e - s - 1) mod 30"
    by (simp add: mod_simps algebra_simps)
  with ring_pred [OF assms] show ?thesis by simp
qed

lemma ring_last:
  assumes "0 \<le> e" and "e < 30"
  shows "(s + (e - s) mod 30) mod 30 = (e::int)"
proof -
  have "(s + (e - s) mod 30) mod 30 = e mod 30"
    by (simp add: mod_simps)
  with assms show ?thesis by simp
qed

lemma ring_other:
  assumes "0 \<le> i" and "i < (e - s) mod 30"
  shows "(s + i) mod 30 \<noteq> (e::int)"
proof
  assume eq: "(s + i) mod 30 = e"
  have "(e - s) mod 30 < 30" by simp
  with assms have i: "i mod 30 = i" by simp
  have "(e - s) mod 30 = ((s + i) mod 30 - s) mod 30" using eq by simp
  also have "\<dots> = i mod 30" by (simp add: mod_simps)
  finally show False using assms i by simp
qed

subsection \<open>The block fifo\<close>

lemma Fifo_wf_init: "Fifo_wf (Fifo_init t0)"
  by (simp add: Fifo_wf_def Fifo_init_def AbstractFifo_init_def Capacity_def)

lemma getNumReady_mod:
  assumes "Fifo_wf f"
  shows "getNumReady (fifo f) = (validEnd (fifo f) - validStart (fifo f)) mod Capacity"
proof (cases "validStart (fifo f) \<le> validEnd (fifo f)")
  case True
  with assms show ?thesis
    by (simp add: getNumReady_def Fifo_wf_def Capacity_def)
next
  case False
  with assms have "(validEnd (fifo f) - validStart (fifo f)) mod 30
      = validEnd (fifo f) - validStart (fifo f) + 30"
    by (intro ring_wrap) (simp_all add: Fifo_wf_def Capacity_def)
  with False assms show ?thesis
    by (simp add: getNumReady_def Fifo_wf_def Capacity_def)
qed

text \<open>A ring of 30 slots never holds more than 29 blocks.\<close>

lemma ready_bounds:
  assumes "Fifo_wf f"
  shows "0 \<le> getNumAvailableForReading f \<and> getNumAvailableForReading f \<le> Capacity - 1"
  using getNumReady_mod [OF assms] by (simp add: getNumAvailableForReading_def Capacity_def)

text \<open>What \<^verbatim>\<open>write(1)\<close> and \<^verbatim>\<open>read(1)\<close> grant, and what their destructors commit.\<close>

lemma finishedWrite_0:
  "validEnd a < bufferSize a \<Longrightarrow> finishedWrite a 0 = a"
  by (simp add: finishedWrite_def)

lemma finishedRead_0:
  "validStart a < bufferSize a \<Longrightarrow> finishedRead a 0 = a"
  by (simp add: finishedRead_def)

lemma prepareToWrite_full:
  assumes "getNumReady a = bufferSize a - 1" and "validStart a < bufferSize a"
    and "0 \<le> validEnd a"
  shows "prepareToWrite a 1
    = \<lparr>startIndex1 = 0, blockSize1 = 0, startIndex2 = 0, blockSize2 = 0\<rparr>"
proof -
  have "(if validEnd a \<ge> validStart a then bufferSize a - (validEnd a - validStart a)
         else validStart a - validEnd a) = 1"
    using assms by (simp add: getNumReady_def Let_def split: if_splits)
  then show ?thesis
    by (simp add: prepareToWrite_def Let_def)
qed

lemma prepareToRead_empty:
  assumes "getNumReady a = 0"
  shows "prepareToRead a 1
    = \<lparr>startIndex1 = 0, blockSize1 = 0, startIndex2 = 0, blockSize2 = 0\<rparr>"
proof -
  have "(if validEnd a \<ge> validStart a then validEnd a - validStart a
         else bufferSize a - (validStart a - validEnd a)) = 0"
    using assms by (simp add: getNumReady_def Let_def)
  then show ?thesis
    by (simp add: prepareToRead_def Let_def)
qed

lemma prepareToWrite_free:
  assumes "getNumReady a < bufferSize a - 1" and "0 \<le> validStart a"
    and "validStart a < bufferSize a" and "0 \<le> validEnd a" and "validEnd a < bufferSize a"
  shows "prepareToWrite a 1
    = \<lparr>startIndex1 = validEnd a, blockSize1 = 1, startIndex2 = 0, blockSize2 = 0\<rparr>"
proof -
  have "(if validEnd a \<ge> validStart a then bufferSize a - (validEnd a - validStart a)
         else validStart a - validEnd a) > 1"
    using assms by (simp add: getNumReady_def Let_def split: if_splits)
  then have "min 1 ((if validEnd a \<ge> validStart a
      then bufferSize a - (validEnd a - validStart a) else validStart a - validEnd a) - 1) = 1"
    by simp
  moreover have "min (bufferSize a - validEnd a) 1 = 1"
    using assms by simp
  ultimately show ?thesis
    by (simp add: prepareToWrite_def Let_def)
qed

lemma prepareToRead_ready:
  assumes "0 < getNumReady a" and "0 \<le> validStart a" and "validStart a < bufferSize a"
  shows "prepareToRead a 1
    = \<lparr>startIndex1 = validStart a, blockSize1 = 1, startIndex2 = 0, blockSize2 = 0\<rparr>"
proof -
  have "min 1 (if validEnd a \<ge> validStart a then validEnd a - validStart a
               else bufferSize a - (validStart a - validEnd a)) = 1"
    using assms by (simp add: getNumReady_def Let_def split: if_splits)
  moreover have "min (bufferSize a - validStart a) 1 = 1"
    using assms by simp
  ultimately show ?thesis
    by (simp add: prepareToRead_def Let_def)
qed

lemma finishedWrite_1:
  assumes "0 \<le> validEnd a" and "validEnd a < bufferSize a"
  shows "finishedWrite a 1 = a\<lparr>validEnd := (validEnd a + 1) mod bufferSize a\<rparr>"
proof (cases "validEnd a + 1 = bufferSize a")
  case True
  then show ?thesis by (simp add: finishedWrite_def)
next
  case False
  with assms have "(validEnd a + 1) mod bufferSize a = validEnd a + 1" by simp
  with False assms show ?thesis by (simp add: finishedWrite_def)
qed

lemma finishedRead_1:
  assumes "0 \<le> validStart a" and "validStart a < bufferSize a"
  shows "finishedRead a 1 = a\<lparr>validStart := (validStart a + 1) mod bufferSize a\<rparr>"
proof (cases "validStart a + 1 = bufferSize a")
  case True
  then show ?thesis by (simp add: finishedRead_def)
next
  case False
  with assms have "(validStart a + 1) mod bufferSize a = validStart a + 1" by simp
  with False assms show ?thesis by (simp add: finishedRead_def)
qed

text \<open>The four cases of \<open>push\<close> and \<open>pull\<close>.\<close>

lemma push_full:
  assumes "Fifo_wf f" and "getNumAvailableForReading f = Capacity - 1"
  shows "push t f = (False, f)"
proof -
  have "prepareToWrite (fifo f) 1
      = \<lparr>startIndex1 = 0, blockSize1 = 0, startIndex2 = 0, blockSize2 = 0\<rparr>"
    using assms
    by (intro prepareToWrite_full) (simp_all add: Fifo_wf_def getNumAvailableForReading_def)
  moreover have "finishedWrite (fifo f) 0 = fifo f"
    using assms by (intro finishedWrite_0) (simp_all add: Fifo_wf_def)
  ultimately show ?thesis by (simp add: push_def)
qed

lemma pull_empty:
  assumes "Fifo_wf f" and "getNumAvailableForReading f = 0"
  shows "pull t f = (False, t, f)"
proof -
  have "prepareToRead (fifo f) 1
      = \<lparr>startIndex1 = 0, blockSize1 = 0, startIndex2 = 0, blockSize2 = 0\<rparr>"
    using assms by (intro prepareToRead_empty) (simp_all add: getNumAvailableForReading_def)
  moreover have "finishedRead (fifo f) 0 = fifo f"
    using assms by (intro finishedRead_0) (simp_all add: Fifo_wf_def)
  ultimately show ?thesis by (simp add: pull_def)
qed

lemma push_free:
  assumes "Fifo_wf f" and "getNumAvailableForReading f < Capacity - 1"
  shows "push t f = (True, \<lparr>buffers = (buffers f)[nat (validEnd (fifo f)) := t],
           fifo = (fifo f)\<lparr>validEnd := (validEnd (fifo f) + 1) mod Capacity\<rparr>\<rparr>)"
proof -
  have "prepareToWrite (fifo f) 1
      = \<lparr>startIndex1 = validEnd (fifo f), blockSize1 = 1, startIndex2 = 0, blockSize2 = 0\<rparr>"
    using assms
    by (intro prepareToWrite_free) (simp_all add: Fifo_wf_def getNumAvailableForReading_def)
  moreover have "finishedWrite (fifo f) 1
      = (fifo f)\<lparr>validEnd := (validEnd (fifo f) + 1) mod Capacity\<rparr>"
    using assms finishedWrite_1 [of "fifo f"] by (simp add: Fifo_wf_def)
  ultimately show ?thesis by (simp add: push_def)
qed

lemma pull_ready:
  assumes "Fifo_wf f" and "0 < getNumAvailableForReading f"
  shows "pull t f = (True, buffers f ! nat (validStart (fifo f)),
           f\<lparr>fifo := (fifo f)\<lparr>validStart := (validStart (fifo f) + 1) mod Capacity\<rparr>\<rparr>)"
proof -
  have "prepareToRead (fifo f) 1
      = \<lparr>startIndex1 = validStart (fifo f), blockSize1 = 1, startIndex2 = 0, blockSize2 = 0\<rparr>"
    using assms
    by (intro prepareToRead_ready) (simp_all add: Fifo_wf_def getNumAvailableForReading_def)
  moreover have "finishedRead (fifo f) 1
      = (fifo f)\<lparr>validStart := (validStart (fifo f) + 1) mod Capacity\<rparr>"
    using assms finishedRead_1 [of "fifo f"] by (simp add: Fifo_wf_def)
  ultimately show ?thesis by (simp add: pull_def)
qed

text \<open>\<open>push\<close> and \<open>pull\<close> keep the fifo well formed, and count as a queue does.\<close>

lemma Fifo_wf_push_free:
  assumes "Fifo_wf f" and "getNumAvailableForReading f < Capacity - 1"
  shows "Fifo_wf (snd (push t f))"
  using assms unfolding push_free [OF assms] by (simp add: Fifo_wf_def Capacity_def)

lemma Fifo_wf_pull_ready:
  assumes "Fifo_wf f" and "0 < getNumAvailableForReading f"
  shows "Fifo_wf (snd (snd (pull t f)))"
  using assms unfolding pull_ready [OF assms] by (simp add: Fifo_wf_def Capacity_def)

lemma Fifo_wf_push:
  assumes "Fifo_wf f"
  shows "Fifo_wf (snd (push t f))"
proof (cases "getNumAvailableForReading f < Capacity - 1")
  case True
  with assms show ?thesis by (rule Fifo_wf_push_free)
next
  case False
  with ready_bounds [OF assms] have "getNumAvailableForReading f = Capacity - 1" by simp
  with assms show ?thesis by (simp add: push_full)
qed

lemma Fifo_wf_pull:
  assumes "Fifo_wf f"
  shows "Fifo_wf (snd (snd (pull t f)))"
proof (cases "0 < getNumAvailableForReading f")
  case True
  with assms show ?thesis by (rule Fifo_wf_pull_ready)
next
  case False
  with ready_bounds [OF assms] have "getNumAvailableForReading f = 0" by simp
  with assms show ?thesis by (simp add: pull_empty)
qed

lemma ready_push_free:
  assumes "Fifo_wf f" and "getNumAvailableForReading f < Capacity - 1"
  shows "getNumAvailableForReading (snd (push t f)) = getNumAvailableForReading f + 1"
proof -
  have w: "Fifo_wf (snd (push t f))" using assms by (rule Fifo_wf_push_free)
  have "getNumAvailableForReading f = (validEnd (fifo f) - validStart (fifo f)) mod 30"
    using getNumReady_mod [OF assms(1)] by (simp add: getNumAvailableForReading_def Capacity_def)
  moreover have "getNumAvailableForReading (snd (push t f))
      = ((validEnd (fifo f) + 1) mod 30 - validStart (fifo f)) mod 30"
    using getNumReady_mod [OF w] unfolding push_free [OF assms]
    by (simp add: getNumAvailableForReading_def Capacity_def)
  ultimately show ?thesis
    using assms(2) ring_succ_end [of "validEnd (fifo f)" "validStart (fifo f)"]
    by (simp add: Capacity_def)
qed

lemma ready_pull_ready:
  assumes "Fifo_wf f" and "0 < getNumAvailableForReading f"
  shows "getNumAvailableForReading (snd (snd (pull t f))) = getNumAvailableForReading f - 1"
proof -
  have w: "Fifo_wf (snd (snd (pull t f)))" using assms by (rule Fifo_wf_pull_ready)
  have "getNumAvailableForReading f = (validEnd (fifo f) - validStart (fifo f)) mod 30"
    using getNumReady_mod [OF assms(1)] by (simp add: getNumAvailableForReading_def Capacity_def)
  moreover have "getNumAvailableForReading (snd (snd (pull t f)))
      = (validEnd (fifo f) - (validStart (fifo f) + 1) mod 30) mod 30"
    using getNumReady_mod [OF w] unfolding pull_ready [OF assms]
    by (simp add: getNumAvailableForReading_def Capacity_def)
  ultimately show ?thesis
    using assms(2) ring_succ_start [of "validEnd (fifo f)" "validStart (fifo f)"]
    by simp
qed

text \<open>The queue that a fifo holds: \<open>push\<close> appends to it and \<open>pull\<close> takes its head.\<close>

lemma length_queued: "length (queued f) = nat (getNumAvailableForReading f)"
  by (simp add: queued_def getNumAvailableForReading_def)

lemma queued_push_free:
  assumes "Fifo_wf f" and "getNumAvailableForReading f < Capacity - 1"
  shows "queued (snd (push t f)) = queued f @ [t]"
proof -
  let ?vs = "validStart (fifo f)" and ?ve = "validEnd (fifo f)"
  let ?n = "nat (getNumReady (fifo f))"
  have r: "getNumReady (fifo f) = (?ve - ?vs) mod 30"
    using getNumReady_mod [OF assms(1)] by (simp add: Capacity_def)
  have r': "getNumReady (fifo (snd (push t f))) = getNumReady (fifo f) + 1"
    using ready_push_free [OF assms] by (simp add: getNumAvailableForReading_def)
  have bounds: "0 \<le> ?vs" "?vs < 30" "0 \<le> ?ve" "?ve < 30" "length (buffers f) = 30"
    using assms(1) by (simp_all add: Fifo_wf_def Capacity_def)
  have nonneg: "0 \<le> getNumReady (fifo f)" using r by simp
  have last: "(?vs + int ?n) mod 30 = ?ve"
    using r bounds nonneg ring_last [of ?ve ?vs] by simp
  have other: "(?vs + int i) mod 30 \<noteq> ?ve" if "i < ?n" for i
  proof -
    have "int i < (?ve - ?vs) mod 30" using that r nonneg by simp
    then show ?thesis by (intro ring_other) simp_all
  qed
  have "queued (snd (push t f)) =
      map (\<lambda>i. (buffers f)[nat ?ve := t] ! nat ((?vs + int i) mod 30)) [0 ..< Suc ?n]"
    using r' nonneg unfolding queued_def
    by (simp add: push_free [OF assms] Capacity_def nat_add_distrib)
  also have "\<dots> = map (\<lambda>i. (buffers f)[nat ?ve := t] ! nat ((?vs + int i) mod 30)) [0 ..< ?n]
      @ [(buffers f)[nat ?ve := t] ! nat ((?vs + int ?n) mod 30)]"
    by simp
  also have "(buffers f)[nat ?ve := t] ! nat ((?vs + int ?n) mod 30) = t"
    using last bounds by simp
  also have "map (\<lambda>i. (buffers f)[nat ?ve := t] ! nat ((?vs + int i) mod 30)) [0 ..< ?n]
      = map (\<lambda>i. buffers f ! nat ((?vs + int i) mod 30)) [0 ..< ?n]"
  proof (rule map_cong [OF refl])
    fix i assume "i \<in> set [0 ..< ?n]"
    then have "(?vs + int i) mod 30 \<noteq> ?ve" using other by simp
    moreover have "0 \<le> (?vs + int i) mod 30" by simp
    ultimately have "nat ?ve \<noteq> nat ((?vs + int i) mod 30)" using bounds by linarith
    then show "(buffers f)[nat ?ve := t] ! nat ((?vs + int i) mod 30)
        = buffers f ! nat ((?vs + int i) mod 30)"
      by simp
  qed
  finally show ?thesis by (simp add: queued_def Capacity_def)
qed

lemma queued_pull_ready:
  assumes "Fifo_wf f" and "0 < getNumAvailableForReading f"
  shows "queued f = fst (snd (pull t f)) # queued (snd (snd (pull t f)))"
proof -
  let ?vs = "validStart (fifo f)"
  let ?m = "nat (getNumReady (fifo f) - 1)"
  have r': "getNumReady (fifo (snd (snd (pull t f)))) = getNumReady (fifo f) - 1"
    using ready_pull_ready [OF assms] by (simp add: getNumAvailableForReading_def)
  have pos: "0 < getNumReady (fifo f)"
    using assms(2) by (simp add: getNumAvailableForReading_def)
  have bounds: "0 \<le> ?vs" "?vs < 30"
    using assms(1) by (simp_all add: Fifo_wf_def Capacity_def)
  have n: "nat (getNumReady (fifo f)) = Suc ?m" using pos by simp
  have shift: "((?vs + 1) mod 30 + int i) mod 30 = (?vs + int (Suc i)) mod 30" for i
    by (simp add: mod_simps algebra_simps)
  have "queued f = map (\<lambda>i. buffers f ! nat ((?vs + int i) mod 30)) [0 ..< Suc ?m]"
    unfolding queued_def using n by (simp add: Capacity_def)
  also have "\<dots> = buffers f ! nat ?vs #
      map (\<lambda>i. buffers f ! nat ((?vs + int (Suc i)) mod 30)) [0 ..< ?m]"
    using bounds
    by (simp only: upt_conv_Cons [OF zero_less_Suc] list.map map_Suc_upt [symmetric]
        map_map o_def) simp
  also have "\<dots> = fst (snd (pull t f)) # queued (snd (snd (pull t f)))"
    using r' unfolding queued_def
    by (simp add: pull_ready [OF assms] Capacity_def shift del: of_nat_Suc)
  finally show ?thesis .
qed

text \<open>A consumer that pulls as many times as blocks are queued gets the queue, in order.\<close>

lemma pulls_all:
  assumes "Fifo_wf f" and "int n = getNumAvailableForReading f"
  shows "fst (pulls n t f) = queued f"
  using assms
proof (induction n arbitrary: t f)
  case 0
  then show ?case using length_queued [of f] by simp
next
  case (Suc n)
  have pos: "0 < getNumAvailableForReading f" using Suc.prems(2) by simp
  obtain t' f' where p: "pull t f = (True, t', f')"
    using pull_ready [OF Suc.prems(1) pos] by simp
  have w: "Fifo_wf f'" using Fifo_wf_pull_ready [OF Suc.prems(1) pos, of t] p by simp
  have c: "int n = getNumAvailableForReading f'"
    using ready_pull_ready [OF Suc.prems(1) pos, of t] p Suc.prems(2) by simp
  have "fst (pulls n t' f') = queued f'" using Suc.IH [OF w c] .
  moreover have "queued f = t' # queued f'"
    using queued_pull_ready [OF Suc.prems(1) pos, of t] p by simp
  ultimately show ?case using p by (simp add: split_beta)
qed

text \<open>
  Claim C10. Pulling from an empty block fifo fails and changes nothing: \<open>pull\<close> returns
  false, the caller's destination keeps its value, and the fifo (its blocks and both
  positions) is the fifo before the call.
\<close>

theorem pull_from_empty_is_noop:
  assumes "Fifo_wf f" and "getNumAvailableForReading f = 0"
  shows "pull t f = (False, t, f)"
proof -
  have "prepareToRead (fifo f) 1
      = \<lparr>startIndex1 = 0, blockSize1 = 0, startIndex2 = 0, blockSize2 = 0\<rparr>"
    using assms(2) by (intro prepareToRead_empty) (simp add: getNumAvailableForReading_def)
  moreover have "finishedRead (fifo f) 0 = fifo f"
    using assms(1) by (intro finishedRead_0) (simp add: Fifo_wf_def)
  ultimately show ?thesis by (simp add: pull_def)
qed

text \<open>
  The fifo that one push and one pull have emptied again (both positions at slot 1): a
  second pull into a destination holding 7 fails and leaves 7 there.
\<close>

theorem pull_from_empty_is_noop_witness:
  "Fifo_wf (snd (snd (pull 0 (snd (push (5::nat) (Fifo_init 0)))))) \<and>
   getNumAvailableForReading (snd (snd (pull 0 (snd (push (5::nat) (Fifo_init 0)))))) = 0 \<and>
   pull 7 (snd (snd (pull 0 (snd (push (5::nat) (Fifo_init 0))))))
     = (False, 7, snd (snd (pull 0 (snd (push (5::nat) (Fifo_init 0))))))"
proof -
  let ?f = "snd (snd (pull 0 (snd (push (5::nat) (Fifo_init 0)))))"
  have w: "Fifo_wf ?f" by (intro Fifo_wf_pull Fifo_wf_push Fifo_wf_init)
  have e: "getNumAvailableForReading ?f = 0" by code_simp
  from w e pull_from_empty_is_noop [OF w e, of 7] show ?thesis by blast
qed

text \<open>
  Claim C5, as amended. The ring has \<open>Capacity = 30\<close> slots and one of them always stays
  free, so the fifo holds at most 29 blocks. A push when 29 blocks are queued fails: it
  returns false, the new block is dropped, the fifo is the fifo before the call, and 29
  pulls still hand the consumer the 29 queued blocks, oldest first.
\<close>

theorem push_to_full_is_noop:
  assumes "Fifo_wf f"
  shows "getNumAvailableForReading f \<le> 29 \<and>
         (getNumAvailableForReading f = 29 \<longrightarrow>
            push t f = (False, f) \<and>
            fst (pulls 29 d (snd (push t f))) = queued f \<and>
            length (queued f) = 29)"
proof (intro conjI impI)
  show "getNumAvailableForReading f \<le> 29"
    using ready_bounds [OF assms] by (simp add: Capacity_def)
next
  assume full: "getNumAvailableForReading f = 29"
  then have c: "getNumAvailableForReading f = Capacity - 1" by (simp add: Capacity_def)
  have p: "push t f = (False, f)" using assms c by (rule push_full)
  have n: "int 29 = getNumAvailableForReading f" using full by simp
  have q: "fst (pulls 29 d f) = queued f" using assms n by (rule pulls_all)
  show "push t f = (False, f)" by (rule p)
  show "fst (pulls 29 d (snd (push t f))) = queued f" using p q by simp
  show "length (queued f) = 29" using full by (simp add: length_queued)
qed

text \<open>
  The instance: the blocks 1 to 29 pushed into a new fifo, then a thirtieth block, 99.
\<close>

theorem push_to_full_is_noop_witness:
  "Fifo_wf (snd (pushes [1 ..< 30] (Fifo_init 0))) \<and>
   getNumAvailableForReading (snd (pushes [1 ..< 30] (Fifo_init 0))) = 29 \<and>
   push 99 (snd (pushes [1 ..< 30] (Fifo_init 0)))
     = (False, snd (pushes [1 ..< 30] (Fifo_init 0))) \<and>
   fst (pulls 29 0 (snd (push 99 (snd (pushes [1 ..< 30] (Fifo_init 0))))))
     = queued (snd (pushes [1 ..< 30] (Fifo_init 0))) \<and>
   queued (snd (pushes [1 ..< 30] (Fifo_init 0))) = [1 ..< 30]"
proof -
  let ?f = "snd (pushes [1 ..< 30] (Fifo_init (0::nat)))"
  have w: "Fifo_wf ?f" by code_simp
  have e: "getNumAvailableForReading ?f = 29" by code_simp
  have q: "queued ?f = [1 ..< 30]" by code_simp
  note t = push_to_full_is_noop [OF w, of 99 0, THEN conjunct2, rule_format, OF e]
  from w e q t show ?thesis by blast
qed

text \<open>
  Claim C5 as stated fails: the fifo does not hold 30 blocks. Of 30 blocks pushed into a
  new fifo with no pull in between, the first 29 are taken and the thirtieth is refused,
  with 29 blocks queued.
\<close>

theorem capacity_30_counterexample:
  "fst (pushes [1 ..< 31] (Fifo_init (0::nat))) = replicate 29 True @ [False] \<and>
   getNumAvailableForReading (snd (pushes [1 ..< 31] (Fifo_init (0::nat)))) = 29 \<and>
   queued (snd (pushes [1 ..< 31] (Fifo_init (0::nat)))) = [1 ..< 30]"
  by code_simp

subsection \<open>The sample fifo\<close>

lemma setSample_shape:
  assumes "setSample c i v b = Some b'"
  shows "getNumSamples b' = getNumSamples b \<and> getNumChannels b' = getNumChannels b"
  using assms by (auto simp: setSample_def getNumChannels_def split: if_splits)

lemma pushNext_below:
  assumes "getNumChannels (bufferToFill s) = 1" and "fifoIndex s < getNumSamples (bufferToFill s)"
  shows "\<exists>s'. pushNextSampleIntoFifo x s = Some s' \<and>
              audioBufferFifo s' = audioBufferFifo s \<and>
              fifoIndex s' = fifoIndex s + 1 \<and>
              getNumChannels (bufferToFill s') = 1 \<and>
              getNumSamples (bufferToFill s') = getNumSamples (bufferToFill s)"
proof -
  obtain b where b: "setSample 0 (fifoIndex s) x (bufferToFill s) = Some b"
    using assms by (simp add: setSample_def)
  have "pushNextSampleIntoFifo x s = Some (s\<lparr>bufferToFill := b, fifoIndex := fifoIndex s + 1\<rparr>)"
    using assms(2) b by (simp add: pushNextSampleIntoFifo_def)
  then show ?thesis using setSample_shape [OF b] assms(1) by simp
qed

lemma pushNext_full:
  assumes "getNumChannels (bufferToFill s) = 1" and "fifoIndex s = getNumSamples (bufferToFill s)"
    and "0 < getNumSamples (bufferToFill s)"
  shows "\<exists>s'. pushNextSampleIntoFifo x s = Some s' \<and>
              audioBufferFifo s' = snd (push (bufferToFill s) (audioBufferFifo s)) \<and>
              fifoIndex s' = 1 \<and>
              getNumChannels (bufferToFill s') = 1 \<and>
              getNumSamples (bufferToFill s') = getNumSamples (bufferToFill s)"
proof -
  obtain b where b: "setSample 0 0 x (bufferToFill s) = Some b"
    using assms by (simp add: setSample_def)
  have "pushNextSampleIntoFifo x s = Some (s\<lparr>audioBufferFifo := snd (push (bufferToFill s) (audioBufferFifo s)),
      bufferToFill := b, fifoIndex := 1\<rparr>)"
    using assms(2) b by (simp add: pushNextSampleIntoFifo_def split_beta)
  then show ?thesis using setSample_shape [OF b] assms(1) by simp
qed

lemma pushSamples_append:
  "pushSamples (xs @ ys) s = (case pushSamples xs s of None \<Rightarrow> None | Some s' \<Rightarrow> pushSamples ys s')"
  by (induction xs arbitrary: s) (auto split: option.splits)

lemma pushSamples_below:
  assumes "getNumChannels (bufferToFill s) = 1"
    and "fifoIndex s + length xs \<le> getNumSamples (bufferToFill s)"
  shows "\<exists>s'. pushSamples xs s = Some s' \<and>
              audioBufferFifo s' = audioBufferFifo s \<and>
              fifoIndex s' = fifoIndex s + length xs \<and>
              getNumChannels (bufferToFill s') = 1 \<and>
              getNumSamples (bufferToFill s') = getNumSamples (bufferToFill s)"
  using assms
proof (induction xs arbitrary: s)
  case Nil
  then show ?case by simp
next
  case (Cons x xs)
  from Cons.prems have lt: "fifoIndex s < getNumSamples (bufferToFill s)" by simp
  from pushNext_below [OF Cons.prems(1) lt, of x] obtain s1 where
    s1: "pushNextSampleIntoFifo x s = Some s1" "audioBufferFifo s1 = audioBufferFifo s"
      "fifoIndex s1 = fifoIndex s + 1" "getNumChannels (bufferToFill s1) = 1"
      "getNumSamples (bufferToFill s1) = getNumSamples (bufferToFill s)"
    by blast
  have "fifoIndex s1 + length xs \<le> getNumSamples (bufferToFill s1)"
    using s1 Cons.prems(2) by simp
  from Cons.IH [OF s1(4) this] s1 show ?case by auto
qed

lemma prepare_new:
  "bufferToFill (prepare n (SingleChannelSampleFifo_init ch)) = \<lparr>getNumSamples = n, channelData = [replicate n 0]\<rparr>"
  "fifoIndex (prepare n (SingleChannelSampleFifo_init ch)) = 0"
  "fifo (audioBufferFifo (prepare n (SingleChannelSampleFifo_init ch))) = AbstractFifo_init Capacity"
  "length (buffers (audioBufferFifo (prepare n (SingleChannelSampleFifo_init ch)))) = nat Capacity"
  by (simp_all add: prepare_def SingleChannelSampleFifo_init_def AudioBuffer_init_def setSize_def
      getNumChannels_def Fifo_prepare_def Fifo_init_def)

lemma prepare_new_fifo:
  "Fifo_wf (audioBufferFifo (prepare n (SingleChannelSampleFifo_init ch)))"
  "getNumAvailableForReading (audioBufferFifo (prepare n (SingleChannelSampleFifo_init ch))) = 0"
  by (simp_all add: Fifo_wf_def prepare_new getNumAvailableForReading_def getNumReady_def
      AbstractFifo_init_def Capacity_def)

text \<open>
  Claim C4, as amended. A full block is not pushed when its last sample arrives but when
  the next sample does: \<open>pushNextSampleIntoFifo\<close> pushes the block at its start, when it
  finds the index at the end of the block. For a new sample fifo prepared with a block
  size \<open>blockSize > 0\<close> and fed \<open>N\<close> samples: no complete block is available when
  \<open>N \<le> blockSize\<close>, and exactly one is available when \<open>blockSize < N \<le> 2 * blockSize\<close>,
  in particular when \<open>N = blockSize + 1\<close>.
\<close>

theorem block_available_one_sample_late:
  assumes "0 < blockSize"
  shows "(length xs \<le> blockSize \<longrightarrow>
            (\<exists>s. pushSamples xs (prepare blockSize (SingleChannelSampleFifo_init ch)) = Some s \<and>
                 getNumCompleteBuffersAvailable s = 0)) \<and>
         (blockSize < length xs \<and> length xs \<le> 2 * blockSize \<longrightarrow>
            (\<exists>s. pushSamples xs (prepare blockSize (SingleChannelSampleFifo_init ch)) = Some s \<and>
                 getNumCompleteBuffersAvailable s = 1))"
proof (intro conjI impI)
  let ?s0 = "prepare blockSize (SingleChannelSampleFifo_init ch)"
  have ch0: "getNumChannels (bufferToFill ?s0) = 1"
    and n0: "getNumSamples (bufferToFill ?s0) = blockSize"
    by (simp_all add: prepare_new getNumChannels_def)
  {
    assume le: "length xs \<le> blockSize"
    have "fifoIndex ?s0 + length xs \<le> getNumSamples (bufferToFill ?s0)"
      using le by (simp add: prepare_new)
    from pushSamples_below [OF ch0 this] obtain s where
      "pushSamples xs ?s0 = Some s" "audioBufferFifo s = audioBufferFifo ?s0"
      by blast
    then show "\<exists>s. pushSamples xs ?s0 = Some s \<and> getNumCompleteBuffersAvailable s = 0"
      by (simp add: getNumCompleteBuffersAvailable_def prepare_new_fifo)
  }
  {
    assume "blockSize < length xs \<and> length xs \<le> 2 * blockSize"
    then have lt: "blockSize < length xs" and le: "length xs \<le> 2 * blockSize" by simp_all
    let ?a = "take blockSize xs" and ?x = "xs ! blockSize" and ?b = "drop (Suc blockSize) xs"
    have split: "xs = ?a @ ?x # ?b" using lt by (rule id_take_nth_drop)
    have "fifoIndex ?s0 + length ?a \<le> getNumSamples (bufferToFill ?s0)"
      using lt by (simp add: prepare_new)
    from pushSamples_below [OF ch0 this] obtain s1 where
      s1: "pushSamples ?a ?s0 = Some s1" "audioBufferFifo s1 = audioBufferFifo ?s0"
        "fifoIndex s1 = fifoIndex ?s0 + length ?a" "getNumChannels (bufferToFill s1) = 1"
        "getNumSamples (bufferToFill s1) = getNumSamples (bufferToFill ?s0)"
      by blast
    have full: "fifoIndex s1 = getNumSamples (bufferToFill s1)"
      using s1 lt by (simp add: prepare_new)
    have pos: "0 < getNumSamples (bufferToFill s1)"
      using s1 assms by (simp add: prepare_new)
    from pushNext_full [OF s1(4) full pos, of ?x] obtain s2 where
      s2: "pushNextSampleIntoFifo ?x s1 = Some s2"
        "audioBufferFifo s2 = snd (push (bufferToFill s1) (audioBufferFifo s1))"
        "fifoIndex s2 = 1" "getNumChannels (bufferToFill s2) = 1"
        "getNumSamples (bufferToFill s2) = getNumSamples (bufferToFill s1)"
      by blast
    have "fifoIndex s2 + length ?b \<le> getNumSamples (bufferToFill s2)"
      using s2 s1 lt le by (simp add: prepare_new)
    from pushSamples_below [OF s2(4) this] obtain s3 where
      s3: "pushSamples ?b s2 = Some s3" "audioBufferFifo s3 = audioBufferFifo s2"
      by blast
    have "pushSamples (?a @ ?x # ?b) ?s0 = Some s3"
      using s1(1) s2(1) s3(1) by (simp add: pushSamples_append)
    then have run: "pushSamples xs ?s0 = Some s3" using split by simp
    have "getNumAvailableForReading (audioBufferFifo ?s0) < Capacity - 1"
      by (simp add: prepare_new_fifo Capacity_def)
    from ready_push_free [OF prepare_new_fifo(1) this]
    have "getNumCompleteBuffersAvailable s3 = 1"
      using s3(2) s2(2) s1(2) by (simp add: getNumCompleteBuffersAvailable_def prepare_new_fifo)
    with run show "\<exists>s. pushSamples xs ?s0 = Some s \<and> getNumCompleteBuffersAvailable s = 1"
      by blast
  }
qed

text \<open>
  A block size of 2: after two samples no block is available, after three samples one is.
\<close>

theorem block_available_one_sample_late_witness:
  "(0::nat) < 2 \<and>
   (\<exists>s. pushSamples [1, 2] (prepare 2 (SingleChannelSampleFifo_init Left)) = Some s \<and>
        getNumCompleteBuffersAvailable s = 0) \<and>
   (\<exists>s. pushSamples [1, 2, 3] (prepare 2 (SingleChannelSampleFifo_init Left)) = Some s \<and>
        getNumCompleteBuffersAvailable s = 1)"
proof -
  have p: "(0::nat) < 2" by simp
  from block_available_one_sample_late [OF p, of "[1, 2]" Left]
    block_available_one_sample_late [OF p, of "[1, 2, 3]" Left]
  show ?thesis by simp
qed

text \<open>
  Claim C4 as stated fails at \<open>N = blockSize\<close>: with a block size of 2 and two samples
  fed, the block is full and not yet pushed, and no block is available.
\<close>

theorem block_available_counterexample:
  "map_option (\<lambda>s. (getNumCompleteBuffersAvailable s, fifoIndex s))
     (pushSamples [1, 2] (prepare 2 (SingleChannelSampleFifo_init Left))) = Some (0, 2)"
  by code_simp

subsection \<open>Replacing the coefficients of a filter\<close>

lemma deref_Some_iff: "deref h p = Some c \<longleftrightarrow> (\<exists>a. p = Some a \<and> a < length h \<and> h ! a = c)"
  by (auto simp: deref_def split: option.splits)

lemma deref_None_iff: "deref h p = None \<longleftrightarrow> (\<forall>a. p = Some a \<longrightarrow> length h \<le> a)"
  by (auto simp: deref_def split: option.splits)

lemma updateCoefficients_Some:
  assumes "updateCoefficients old new' h = Some (old', h')"
  shows "\<exists>a c. old = Some a \<and> a < length h \<and> deref h new' = Some c \<and> old' = old \<and> h' = h[a := c]"
  using assms by (auto simp: updateCoefficients_def split: option.splits if_splits)

lemma updateCoefficients_returns:
  assumes "deref h old \<noteq> None" and "deref h new' \<noteq> None"
  shows "\<exists>h'. updateCoefficients old new' h = Some (old, h') \<and> length h' = length h"
  using assms by (auto simp: updateCoefficients_def deref_def split: option.splits if_splits)

text \<open>
  Claim C1, as amended. \<open>updateCoefficients\<close> does not replace the handle: it assigns the
  value of the new coefficient object to the object that the stage's handle refers to.
  After the call the handle is the handle before the call, the object behind it holds the
  new set, and every other object of the store is unchanged. A reader that holds the old
  handle therefore reads the new set after the call.
\<close>

theorem updateCoefficients_assigns_in_place:
  assumes "updateCoefficients old new' h = Some (old', h')"
  shows "old' = old \<and> deref h' old = deref h new' \<and> length h' = length h \<and>
         (\<forall>p. p \<noteq> old \<longrightarrow> deref h' p = deref h p)"
proof -
  from updateCoefficients_Some [OF assms] obtain a c where
    *: "old = Some a" "a < length h" "deref h new' = Some c" "old' = old" "h' = h[a := c]"
    by blast
  have "deref h' p = deref h p" if "p \<noteq> old" for p
    using that * by (cases p) (auto simp: deref_def)
  moreover have "deref h' old = deref h new'"
    using * by (simp add: deref_def)
  ultimately show ?thesis using * by simp
qed

text \<open>
  A store of two objects, \<open>[1, 2]\<close> at address 0 and \<open>[3, 4]\<close> at address 1; the stage
  points to address 0 and the new set is at address 1.
\<close>

theorem updateCoefficients_assigns_in_place_witness:
  "updateCoefficients (Some 0) (Some 1) [[1, 2], [3, 4]] = Some (Some 0, [[3, 4], [3, 4]]) \<and>
   deref [[3, 4], [3, 4]] (Some 0) = deref [[1, 2], [3, 4]] (Some 1) \<and>
   length [[3, 4], [3, 4 :: real]] = length [[1, 2], [3, 4 :: real]] \<and>
   deref [[3, 4], [3, 4]] (Some 1) = deref [[1, 2], [3, 4]] (Some 1)"
proof -
  have r: "updateCoefficients (Some 0) (Some 1) [[1, 2], [3, 4]] = Some (Some 0, [[3, 4], [3, 4]])"
    by code_simp
  from r updateCoefficients_assigns_in_place [OF r] show ?thesis by simp
qed

text \<open>
  Claim C1 as stated fails on the same input: the object at address 0, which the stage
  referred to before the call, held \<open>[1, 2]\<close> and holds \<open>[3, 4]\<close> after it, and the
  stage's handle is still address 0, not the new handle.
\<close>

theorem handle_swap_counterexample:
  "updateCoefficients (Some 0) (Some 1) [[1, 2], [3, 4]] = Some (Some 0, [[3, 4], [3, 4]]) \<and>
   deref [[1, 2], [3, 4]] (Some 0) = Some [1, 2] \<and>
   deref [[3, 4], [3, 4]] (Some 0) = Some [3, 4]"
  by code_simp


subsection \<open>The cut filters\<close>

lemma put_get: "put i (get i chain) chain = chain"
  by (cases i) simp_all

lemma get_setBypassed: "get j (setBypassed i b chain) = get j chain"
  by (cases i; cases j) simp_all

lemma isBypassed_setBypassed:
  "isBypassed j (setBypassed i b chain) = (if j = i then b else isBypassed j chain)"
  by (cases i; cases j) simp_all

lemma update_Some:
  assumes "update i coeffs chain h = Some (chain', h')"
  shows "chain' = setBypassed i False chain \<and> length h' = length h"
proof -
  from assms obtain p where
    u: "updateCoefficients (coefficients (get i chain)) (array_get coeffs (Index_nat i)) h = Some (p, h')"
    and c: "chain' = setBypassed i False (put i ((get i chain)\<lparr>coefficients := p\<rparr>) chain)"
    by (auto simp: update_def bind_eq_Some_conv)
  from updateCoefficients_Some [OF u] have p: "p = coefficients (get i chain)" and l: "length h' = length h"
    by auto
  show ?thesis using c l by (simp add: p put_get)
qed

lemma update_returns:
  assumes "deref h (coefficients (get i chain)) \<noteq> None"
    and "deref h (array_get coeffs (Index_nat i)) \<noteq> None"
  shows "\<exists>h'. update i coeffs chain h = Some (setBypassed i False chain, h') \<and> length h' = length h"
proof -
  from updateCoefficients_returns [OF assms] obtain h' where
    "updateCoefficients (coefficients (get i chain)) (array_get coeffs (Index_nat i)) h
       = Some (coefficients (get i chain), h')" "length h' = length h"
    by blast
  then show ?thesis by (simp add: update_def put_get)
qed

lemma deref_length: "length h' = length h \<Longrightarrow> deref h' p \<noteq> None \<longleftrightarrow> deref h p \<noteq> None"
  by (simp add: deref_def split: option.splits)


lemma update_next:
  assumes "length h1 = length h" and "get i c = get i chain"
    and "deref h (coefficients (get i chain)) \<noteq> None"
    and "deref h (array_get coeffs (Index_nat i)) \<noteq> None"
  shows "\<exists>h2. update i coeffs c h1 = Some (setBypassed i False c, h2) \<and> length h2 = length h"
proof -
  have "deref h1 (coefficients (get i c)) \<noteq> None"
    using assms(2,3) deref_length [OF assms(1)] by simp
  moreover have "deref h1 (array_get coeffs (Index_nat i)) \<noteq> None"
    using assms(4) deref_length [OF assms(1)] by simp
  ultimately show ?thesis using update_returns [of h1 i c coeffs] assms(1) by simp
qed

lemma UpdateCutFilter_Some:
  assumes "UpdateCutFilter chain coeffs slope h = Some (chain', h')"
  shows "chain' = chain\<lparr>bypassed0 := False, bypassed1 := Slope_index slope < 1,
           bypassed2 := Slope_index slope < 2, bypassed3 := Slope_index slope < 3\<rparr> \<and>
         length h' = length h"
proof (cases slope)
  case slope12
  with assms show ?thesis
    by (auto simp: UpdateCutFilter_def dest!: update_Some)
next
  case slope24
  with assms show ?thesis
    by (auto simp: UpdateCutFilter_def bind_eq_Some_conv dest!: update_Some)
next
  case slope36
  with assms show ?thesis
    by (auto simp: UpdateCutFilter_def bind_eq_Some_conv dest!: update_Some)
next
  case slope48
  with assms show ?thesis
    by (auto simp: UpdateCutFilter_def bind_eq_Some_conv dest!: update_Some)
qed


lemma UpdateCutFilter_returns:
  assumes "\<forall>i. Index_nat i \<le> Slope_index slope \<longrightarrow>
             deref h (coefficients (get i chain)) \<noteq> None \<and>
             deref h (array_get coeffs (Index_nat i)) \<noteq> None"
  shows "UpdateCutFilter chain coeffs slope h \<noteq> None"
proof -
  define c where "c = setBypassed I3 True (setBypassed I2 True (setBypassed I1 True
      (setBypassed I0 True chain)))"
  have g: "get i c = get i chain" for i by (cases i) (simp_all add: c_def)
  have g': "filter0 c = filter0 chain" "filter1 c = filter1 chain"
      "filter2 c = filter2 chain" "filter3 c = filter3 chain"
    by (simp_all add: c_def)
  have v: "deref h (coefficients (get i chain)) \<noteq> None"
      "deref h (array_get coeffs (Index_nat i)) \<noteq> None"
    if "Index_nat i \<le> Slope_index slope" for i
    using assms that by simp_all
  show ?thesis
  proof (cases slope)
    case slope12
    from update_next [OF refl g v, of I0] slope12
    obtain h0 where "update I0 coeffs c h = Some (setBypassed I0 False c, h0)" by auto
    then show ?thesis using slope12 by (simp add: UpdateCutFilter_def c_def)
  next
    case slope24
    from update_next [OF refl g v, of I1] slope24
    obtain h1 where 1: "update I1 coeffs c h = Some (setBypassed I1 False c, h1)" "length h1 = length h"
      by auto
    from update_next [OF 1(2) _ v, of I0 "setBypassed I1 False c"] slope24
    obtain h0 where "update I0 coeffs (setBypassed I1 False c) h1
        = Some (setBypassed I0 False (setBypassed I1 False c), h0)"
      by (auto simp: g')
    then show ?thesis using slope24 1 by (simp add: UpdateCutFilter_def c_def)
  next
    case slope36
    from update_next [OF refl g v, of I2] slope36
    obtain h2 where 2: "update I2 coeffs c h = Some (setBypassed I2 False c, h2)" "length h2 = length h"
      by auto
    from update_next [OF 2(2) _ v, of I1 "setBypassed I2 False c"] slope36
    obtain h1 where 1: "update I1 coeffs (setBypassed I2 False c) h2
        = Some (setBypassed I1 False (setBypassed I2 False c), h1)" "length h1 = length h"
      by (auto simp: g')
    from update_next [OF 1(2) _ v, of I0 "setBypassed I1 False (setBypassed I2 False c)"] slope36
    obtain h0 where "update I0 coeffs (setBypassed I1 False (setBypassed I2 False c)) h1
        = Some (setBypassed I0 False (setBypassed I1 False (setBypassed I2 False c)), h0)"
      by (auto simp: g')
    then show ?thesis using slope36 1 2 by (simp add: UpdateCutFilter_def c_def)
  next
    case slope48
    from update_next [OF refl g v, of I3] slope48
    obtain h3 where 3: "update I3 coeffs c h = Some (setBypassed I3 False c, h3)" "length h3 = length h"
      by auto
    from update_next [OF 3(2) _ v, of I2 "setBypassed I3 False c"] slope48
    obtain h2 where 2: "update I2 coeffs (setBypassed I3 False c) h3
        = Some (setBypassed I2 False (setBypassed I3 False c), h2)" "length h2 = length h"
      by (auto simp: g')
    from update_next [OF 2(2) _ v, of I1 "setBypassed I2 False (setBypassed I3 False c)"] slope48
    obtain h1 where 1: "update I1 coeffs (setBypassed I2 False (setBypassed I3 False c)) h2
        = Some (setBypassed I1 False (setBypassed I2 False (setBypassed I3 False c)), h1)"
        "length h1 = length h"
      by (auto simp: g')
    from update_next [OF 1(2) _ v,
        of I0 "setBypassed I1 False (setBypassed I2 False (setBypassed I3 False c))"] slope48
    obtain h0 where "update I0 coeffs
          (setBypassed I1 False (setBypassed I2 False (setBypassed I3 False c))) h1
        = Some (setBypassed I0 False
            (setBypassed I1 False (setBypassed I2 False (setBypassed I3 False c))), h0)"
      by (auto simp: g')
    then show ?thesis using slope48 1 2 3 by (simp add: UpdateCutFilter_def c_def)
  qed
qed


lemma get_flags:
  "get i (chain\<lparr>bypassed0 := b0, bypassed1 := b1, bypassed2 := b2, bypassed3 := b3\<rparr>) = get i chain"
  by (cases i) simp_all

lemma isBypassed_flags:
  "isBypassed i (chain\<lparr>bypassed0 := False, bypassed1 := n < 1, bypassed2 := n < 2,
      bypassed3 := n < 3\<rparr>) = (n < Index_nat i)"
  by (cases i) simp_all

text \<open>
  Claim C3. \<open>UpdateCutFilter\<close> returns whenever the pointers it dereferences (those of the
  stages 0 to the slope's index, and the entries of the coefficient array at these
  indices) refer to objects. After it has returned, stage \<open>i\<close> is bypassed exactly when
  \<open>i\<close> is above the slope's index: the stages 0 to the slope's index are active, and
  these are the slope's index plus one of the four stages.
\<close>

theorem UpdateCutFilter_active_stages:
  "((\<forall>i. Index_nat i \<le> Slope_index slope \<longrightarrow>
          deref h (coefficients (get i chain)) \<noteq> None \<and>
          deref h (array_get coeffs (Index_nat i)) \<noteq> None)
      \<longrightarrow> UpdateCutFilter chain coeffs slope h \<noteq> None) \<and>
   (\<forall>chain' h'. UpdateCutFilter chain coeffs slope h = Some (chain', h') \<longrightarrow>
      (\<forall>i. isBypassed i chain' = (Slope_index slope < Index_nat i)) \<and>
      length (filter (\<lambda>i. \<not> isBypassed i chain') [I0, I1, I2, I3]) = Slope_index slope + 1)"
proof (intro conjI impI allI)
  assume "\<forall>i. Index_nat i \<le> Slope_index slope \<longrightarrow>
          deref h (coefficients (get i chain)) \<noteq> None \<and>
          deref h (array_get coeffs (Index_nat i)) \<noteq> None"
  then show "UpdateCutFilter chain coeffs slope h \<noteq> None"
    by (rule UpdateCutFilter_returns)
next
  fix chain' h' i
  assume "UpdateCutFilter chain coeffs slope h = Some (chain', h')"
  from UpdateCutFilter_Some [OF this]
  show "isBypassed i chain' = (Slope_index slope < Index_nat i)"
    by (simp only: isBypassed_flags)
next
  fix chain' h'
  assume "UpdateCutFilter chain coeffs slope h = Some (chain', h')"
  from UpdateCutFilter_Some [OF this]
  have "isBypassed i chain' = (Slope_index slope < Index_nat i)" for i
    by (simp only: isBypassed_flags)
  then show "length (filter (\<lambda>i. \<not> isBypassed i chain') [I0, I1, I2, I3]) = Slope_index slope + 1"
    by (cases slope) simp_all
qed

text \<open>
  A new chain, whose four filters point to the objects 0 to 3 of the store, and an array
  of the two new objects 4 and 5: at \<open>slope24\<close> the stages 0 and 1 are active.
\<close>

theorem UpdateCutFilter_active_stages_witness:
  "UpdateCutFilter (fst (CutFilter_init [])) [Some 4, Some 5] slope24
     (snd (CutFilter_init []) @ [[5], [6]]) \<noteq> None \<and>
   UpdateCutFilter (fst (CutFilter_init [])) [Some 4, Some 5] slope24
     (snd (CutFilter_init []) @ [[5], [6]])
   = Some ((fst (CutFilter_init []))\<lparr>bypassed2 := True, bypassed3 := True\<rparr>,
           [[5], [6], [1, 0, 0], [1, 0, 0], [5], [6]]) \<and>
   (\<forall>i. isBypassed i ((fst (CutFilter_init []))\<lparr>bypassed2 := True, bypassed3 := True\<rparr>)
        = (Slope_index slope24 < Index_nat i)) \<and>
   length (filter (\<lambda>i. \<not> isBypassed i
        ((fst (CutFilter_init []))\<lparr>bypassed2 := True, bypassed3 := True\<rparr>)) [I0, I1, I2, I3])
     = Slope_index slope24 + 1"
proof -
  let ?chain = "fst (CutFilter_init [])" and ?h = "snd (CutFilter_init []) @ [[5], [6]]"
  let ?coeffs = "[Some 4, Some 5]"
  have pre: "\<forall>i. Index_nat i \<le> Slope_index slope24 \<longrightarrow>
      deref ?h (coefficients (get i ?chain)) \<noteq> None \<and>
      deref ?h (array_get ?coeffs (Index_nat i)) \<noteq> None"
  proof (intro allI impI)
    fix i assume "Index_nat i \<le> Slope_index slope24"
    then show "deref ?h (coefficients (get i ?chain)) \<noteq> None \<and>
      deref ?h (array_get ?coeffs (Index_nat i)) \<noteq> None"
      by (cases i) (simp_all add: CutFilter_init_def Filter_init_def alloc_def deref_def
          array_get_def)
  qed
  have r: "UpdateCutFilter ?chain ?coeffs slope24 ?h
      = Some (?chain\<lparr>bypassed2 := True, bypassed3 := True\<rparr>,
              [[5], [6], [1, 0, 0], [1, 0, 0], [5], [6]])"
    by code_simp
  note t = UpdateCutFilter_active_stages [of slope24 ?h ?chain ?coeffs]
  from t pre have "UpdateCutFilter ?chain ?coeffs slope24 ?h \<noteq> None" by blast
  moreover from t r have
    "(\<forall>i. isBypassed i (?chain\<lparr>bypassed2 := True, bypassed3 := True\<rparr>)
        = (Slope_index slope24 < Index_nat i)) \<and>
     length (filter (\<lambda>i. \<not> isBypassed i (?chain\<lparr>bypassed2 := True, bypassed3 := True\<rparr>))
        [I0, I1, I2, I3]) = Slope_index slope24 + 1"
    by blast
  ultimately show ?thesis using r by blast
qed

subsection \<open>The settings\<close>

lemma getChainSettings_Some:
  assumes "getChainSettings a = Some cs"
  shows "\<not> lowCutByPassed cs \<and> \<not> peakByPassed cs \<and> \<not> highCutByPassed cs"
  using assms by (auto simp: getChainSettings_def bind_eq_Some_conv ChainSettings_init_def)

lemma getChainSettings_other_parameter:
  assumes "name \<notin> {''Low-Cut Frequency'', ''High-Cut Frequency'', ''Low-Cut Slope'',
      ''High-Cut Slope'', ''Peak Frequency'', ''Peak Gain'', ''Peak Quality''}"
  shows "getChainSettings (a(name \<mapsto> v)) = getChainSettings a"
proof -
  have "getRawParameterValue (a(name \<mapsto> v)) k = getRawParameterValue a k" if "k \<noteq> name" for k
    using that by (simp add: getRawParameterValue_def)
  with assms show ?thesis
    unfolding getChainSettings_def by auto
qed

lemma getChainSettings_returns:
  assumes "a ''Low-Cut Frequency'' = Some lcf" and "a ''High-Cut Frequency'' = Some hcf"
    and "a ''Low-Cut Slope'' = Some lcsRaw" and "static_cast_Slope lcsRaw = Some lcs"
    and "a ''High-Cut Slope'' = Some hcsRaw" and "static_cast_Slope hcsRaw = Some hcs"
    and "a ''Peak Frequency'' = Some pf" and "a ''Peak Gain'' = Some pg"
    and "a ''Peak Quality'' = Some pq"
  shows "getChainSettings a = Some (ChainSettings_init
       \<lparr>peakFreq := pf, peakGainInDB := pg, peakQuality := pq,
        lowCutFrequency := lcf, highCutFrequency := hcf,
        lowCutSlope := lcs, highCutSlope := hcs\<rparr>)"
  by (simp add: getChainSettings_def getRawParameterValue_def assms)

text \<open>
  Claim C9. Whatever the parameter store holds, the settings that \<open>getChainSettings\<close>
  returns have the three bypass flags false: the function reads seven parameters, none of
  them a bypass parameter, and a parameter under any other identifier does not change
  its result.
\<close>

theorem getChainSettings_never_bypassed:
  "(\<forall>cs. getChainSettings a = Some cs \<longrightarrow>
      \<not> lowCutByPassed cs \<and> \<not> peakByPassed cs \<and> \<not> highCutByPassed cs) \<and>
   (\<forall>name v. name \<notin> {''Low-Cut Frequency'', ''High-Cut Frequency'', ''Low-Cut Slope'',
      ''High-Cut Slope'', ''Peak Frequency'', ''Peak Gain'', ''Peak Quality''} \<longrightarrow>
      getChainSettings (a(name \<mapsto> v)) = getChainSettings a)"
proof (rule conjI)
  show "\<forall>cs. getChainSettings a = Some cs \<longrightarrow>
      \<not> lowCutByPassed cs \<and> \<not> peakByPassed cs \<and> \<not> highCutByPassed cs"
  proof (intro allI impI)
    fix cs
    assume "getChainSettings a = Some cs"
    then show "\<not> lowCutByPassed cs \<and> \<not> peakByPassed cs \<and> \<not> highCutByPassed cs"
      by (rule getChainSettings_Some)
  qed
  show "\<forall>name v. name \<notin> {''Low-Cut Frequency'', ''High-Cut Frequency'', ''Low-Cut Slope'',
      ''High-Cut Slope'', ''Peak Frequency'', ''Peak Gain'', ''Peak Quality''} \<longrightarrow>
      getChainSettings (a(name \<mapsto> v)) = getChainSettings a"
  proof (intro allI impI)
    fix name v
    assume "name \<notin> {''Low-Cut Frequency'', ''High-Cut Frequency'', ''Low-Cut Slope'',
        ''High-Cut Slope'', ''Peak Frequency'', ''Peak Gain'', ''Peak Quality''}"
    then show "getChainSettings (a(name \<mapsto> v)) = getChainSettings a"
      by (rule getChainSettings_other_parameter)
  qed
qed

text \<open>
  The store of the default values, with a parameter \<^verbatim>\<open>LowCut Bypassed\<close> set to 1 added.
\<close>

theorem getChainSettings_never_bypassed_witness:
  "getChainSettings (createParameterLayout(''LowCut Bypassed'' \<mapsto> 1))
     = Some \<lparr>peakFreq = 750, peakGainInDB = 0, peakQuality = 1, lowCutFrequency = 20,
         highCutFrequency = 20000, lowCutSlope = slope12, highCutSlope = slope12,
         lowCutByPassed = False, peakByPassed = False, highCutByPassed = False\<rparr> \<and>
   \<not> lowCutByPassed \<lparr>peakFreq = 750, peakGainInDB = 0, peakQuality = 1, lowCutFrequency = 20,
         highCutFrequency = 20000, lowCutSlope = slope12, highCutSlope = slope12,
         lowCutByPassed = False, peakByPassed = False, highCutByPassed = False\<rparr> \<and>
   getChainSettings (createParameterLayout(''LowCut Bypassed'' \<mapsto> 1))
     = getChainSettings createParameterLayout"
proof -
  let ?cs = "\<lparr>peakFreq = 750, peakGainInDB = 0, peakQuality = 1, lowCutFrequency = 20,
         highCutFrequency = 20000, lowCutSlope = slope12, highCutSlope = slope12,
         lowCutByPassed = False, peakByPassed = False, highCutByPassed = False\<rparr>"
  have r: "getChainSettings createParameterLayout = Some ?cs"
    by code_simp
  have n: "''LowCut Bypassed'' \<notin> {''Low-Cut Frequency'', ''High-Cut Frequency'',
      ''Low-Cut Slope'', ''High-Cut Slope'', ''Peak Frequency'', ''Peak Gain'', ''Peak Quality''}"
    by simp
  note t = getChainSettings_never_bypassed [of createParameterLayout]
  have e: "getChainSettings (createParameterLayout(''LowCut Bypassed'' \<mapsto> 1))
     = getChainSettings createParameterLayout"
    using t [THEN conjunct2, rule_format, OF n] .
  have b: "\<not> lowCutByPassed ?cs"
    using t [THEN conjunct1, rule_format, OF r] by (rule conjunct1)
  show ?thesis using r e b by (simp only: simp_thms)
qed

subsection \<open>The order of the cut filters\<close>

text \<open>
  What an update leaves in the store. The array holds the addresses of the new objects,
  and each update of a stage assigns the object at one of them to the stage's object.
\<close>

lemma allocArray_eq:
  "allocArray cs h = (map (\<lambda>k. Some (length h + k)) [0 ..< length cs], h @ cs)"
proof (induction cs arbitrary: h)
  case Nil
  then show ?case by simp
next
  case (Cons c cs)
  have "map (\<lambda>k. Some (length h + k)) [0 ..< Suc (length cs)]
      = Some (length h) # map (\<lambda>k. Some (Suc (length h + k))) [0 ..< length cs]"
    by (simp only: upt_conv_Cons [OF zero_less_Suc] list.map map_Suc_upt [symmetric] map_map o_def)
      simp
  then show ?case by (simp add: Cons.IH alloc_def)
qed

lemma update_store:
  assumes "update i coeffs chain h = Some (chain', h')"
  shows "\<exists>a b. coefficients (get i chain) = Some a \<and> a < length h \<and>
               array_get coeffs (Index_nat i) = Some b \<and> b < length h \<and>
               h' = h[a := h ! b] \<and> chain' = setBypassed i False chain"
proof -
  from assms obtain p where
    u: "updateCoefficients (coefficients (get i chain)) (array_get coeffs (Index_nat i)) h = Some (p, h')"
    by (auto simp: update_def bind_eq_Some_conv)
  from updateCoefficients_Some [OF u] obtain a c where
    *: "coefficients (get i chain) = Some a" "a < length h"
       "deref h (array_get coeffs (Index_nat i)) = Some c" "h' = h[a := c]"
    by blast
  from *(3) obtain b where "array_get coeffs (Index_nat i) = Some b" "b < length h" "h ! b = c"
    by (auto simp: deref_def split: option.splits if_splits)
  with * update_Some [OF assms] show ?thesis by simp
qed


lemma update_step_store:
  assumes u: "update i coeffs c h1 = Some (c', h')"
    and ai: "coefficients (get i c) = Some (a i)"
    and sep: "\<And>j. array_get coeffs (Index_nat i) \<noteq> Some (a j)"
    and inj: "\<And>j. j \<in> D \<Longrightarrow> a j \<noteq> a i"
    and len: "length h1 = length h"
    and frame: "\<forall>x. (\<forall>j\<in>D. x \<noteq> a j) \<longrightarrow> h1 ! x = h ! x"
    and finished: "\<forall>j\<in>D. \<exists>b. array_get coeffs (Index_nat j) = Some b \<and> b < length h \<and>
                       h1 ! a j = h ! b"
  shows "c' = setBypassed i False c \<and> length h' = length h \<and>
         (\<forall>x. (\<forall>j\<in>insert i D. x \<noteq> a j) \<longrightarrow> h' ! x = h ! x) \<and>
         (\<forall>j\<in>insert i D. \<exists>b. array_get coeffs (Index_nat j) = Some b \<and> b < length h \<and>
              h' ! a j = h ! b)"
proof -
  from update_store [OF u] ai obtain b where
    b: "a i < length h1" "array_get coeffs (Index_nat i) = Some b" "b < length h1"
       "h' = h1[a i := h1 ! b]" "c' = setBypassed i False c"
    by auto
  have bj: "b \<noteq> a j" for j using sep [of j] b(2) by auto
  then have hb: "h1 ! b = h ! b" using frame by simp
  have 1: "h' ! x = h ! x" if "\<forall>j\<in>insert i D. x \<noteq> a j" for x
  proof -
    from that have "x \<noteq> a i" and "\<forall>j\<in>D. x \<noteq> a j" by simp_all
    then show ?thesis using frame b(4) by simp
  qed
  have 2: "\<exists>b'. array_get coeffs (Index_nat j) = Some b' \<and> b' < length h \<and> h' ! a j = h ! b'"
    if "j \<in> insert i D" for j
  proof (cases "j = i")
    case True
    have "h' ! a i = h ! b" using b(1,4) hb by simp
    with True b(2,3) len show ?thesis by simp
  next
    case False
    with that have jD: "j \<in> D" by simp
    from finished jD obtain b' where
      b': "array_get coeffs (Index_nat j) = Some b'" "b' < length h" "h1 ! a j = h ! b'"
      by blast
    have "h' ! a j = h1 ! a j" using inj [OF jD] b(4) by simp
    with b' show ?thesis by simp
  qed
  show ?thesis using b(4,5) len 1 2 by simp
qed

lemma UpdateCutFilter_store:
  assumes run: "UpdateCutFilter chain coeffs slope h = Some (chain', h')"
    and a: "\<And>i. coefficients (get i chain) = Some (a i)"
    and sep: "\<And>i j. Index_nat j \<le> Slope_index slope \<Longrightarrow>
                array_get coeffs (Index_nat j) \<noteq> Some (a i)"
    and inj: "\<And>i j. i \<noteq> j \<Longrightarrow> a i \<noteq> a j"
  shows "(\<forall>i. Index_nat i \<le> Slope_index slope \<longrightarrow>
            (\<exists>b. array_get coeffs (Index_nat i) = Some b \<and> b < length h \<and> h' ! a i = h ! b)) \<and>
         (\<forall>x. (\<forall>i. x \<noteq> a i) \<longrightarrow> h' ! x = h ! x) \<and>
         length h' = length h"
proof -
  define c where "c = chain\<lparr>bypassed0 := True, bypassed1 := True, bypassed2 := True,
      bypassed3 := True\<rparr>"
  have g: "coefficients (get i (setBypassed j b x)) = coefficients (get i x)" for i j b x
    by (simp add: get_setBypassed)
  have ac: "coefficients (get i c) = Some (a i)" for i
    using a [of i] by (cases i) (simp_all add: c_def)
  have start: "length h = length h" "\<forall>x. (\<forall>j\<in>{}. x \<noteq> a j) \<longrightarrow> h ! x = h ! x"
    "\<forall>j\<in>{}. \<exists>b. array_get coeffs (Index_nat j) = Some b \<and> b < length h \<and> h ! a j = h ! b"
    by simp_all
  have none: "a j \<noteq> a i" if "j \<in> {}" for i j :: Index
    using that by simp
  have final: ?thesis
    if D: "\<And>i. i \<in> D \<longleftrightarrow> Index_nat i \<le> Slope_index slope"
      and l: "length h' = length h"
      and f: "\<forall>x. (\<forall>j\<in>D. x \<noteq> a j) \<longrightarrow> h' ! x = h ! x"
      and e: "\<forall>j\<in>D. \<exists>b. array_get coeffs (Index_nat j) = Some b \<and> b < length h \<and>
                h' ! a j = h ! b"
    for D
    using D l f e by blast
  show ?thesis
  proof (cases slope)
    case slope12
    from run slope12 have u0: "update I0 coeffs c h = Some (chain', h')"
      by (simp add: UpdateCutFilter_def c_def)
    have s0: "array_get coeffs (Index_nat I0) \<noteq> Some (a j)" for j
      using sep [of I0 j] slope12 by simp
    from update_step_store [OF u0 ac s0 none start] have
      r: "length h' = length h" "\<forall>x. (\<forall>j\<in>{I0}. x \<noteq> a j) \<longrightarrow> h' ! x = h ! x"
         "\<forall>j\<in>{I0}. \<exists>b. array_get coeffs (Index_nat j) = Some b \<and> b < length h \<and> h' ! a j = h ! b"
      by simp_all
    have "i \<in> {I0} \<longleftrightarrow> Index_nat i \<le> Slope_index slope" for i
      using slope12 by (cases i) simp_all
    from final [OF this r] show ?thesis .
  next
    case slope24
    from run slope24 obtain c1 h1 where
      u1: "update I1 coeffs c h = Some (c1, h1)" and
      u0: "update I0 coeffs c1 h1 = Some (chain', h')"
      by (auto simp: UpdateCutFilter_def c_def bind_eq_Some_conv)
    have s: "array_get coeffs (Index_nat I0) \<noteq> Some (a j)"
        "array_get coeffs (Index_nat I1) \<noteq> Some (a j)" for j
      using sep [of I0 j] sep [of I1 j] slope24 by simp_all
    from update_step_store [OF u1 ac s(2) none start] have
      r1: "c1 = setBypassed I1 False c" "length h1 = length h"
         "\<forall>x. (\<forall>j\<in>{I1}. x \<noteq> a j) \<longrightarrow> h1 ! x = h ! x"
         "\<forall>j\<in>{I1}. \<exists>b. array_get coeffs (Index_nat j) = Some b \<and> b < length h \<and> h1 ! a j = h ! b"
      by simp_all
    have a1: "coefficients (get I0 c1) = Some (a I0)" unfolding r1(1) g by (rule ac)
    have i1: "a j \<noteq> a I0" if "j \<in> {I1}" for j using that inj [of j I0] by auto
    from update_step_store [OF u0 a1 s(1) i1 r1(2,3,4)] have
      r: "length h' = length h" "\<forall>x. (\<forall>j\<in>{I0, I1}. x \<noteq> a j) \<longrightarrow> h' ! x = h ! x"
         "\<forall>j\<in>{I0, I1}. \<exists>b. array_get coeffs (Index_nat j) = Some b \<and> b < length h \<and> h' ! a j = h ! b"
      by simp_all
    have "i \<in> {I0, I1} \<longleftrightarrow> Index_nat i \<le> Slope_index slope" for i
      using slope24 by (cases i) simp_all
    from final [OF this r] show ?thesis .
  next
    case slope36
    from run slope36 obtain c2 h2 c1 h1 where
      u2: "update I2 coeffs c h = Some (c2, h2)" and
      u1: "update I1 coeffs c2 h2 = Some (c1, h1)" and
      u0: "update I0 coeffs c1 h1 = Some (chain', h')"
      by (auto simp: UpdateCutFilter_def c_def bind_eq_Some_conv)
    have s: "array_get coeffs (Index_nat I0) \<noteq> Some (a j)"
        "array_get coeffs (Index_nat I1) \<noteq> Some (a j)"
        "array_get coeffs (Index_nat I2) \<noteq> Some (a j)" for j
      using sep [of I0 j] sep [of I1 j] sep [of I2 j] slope36 by simp_all
    from update_step_store [OF u2 ac s(3) none start] have
      r2: "c2 = setBypassed I2 False c" "length h2 = length h"
         "\<forall>x. (\<forall>j\<in>{I2}. x \<noteq> a j) \<longrightarrow> h2 ! x = h ! x"
         "\<forall>j\<in>{I2}. \<exists>b. array_get coeffs (Index_nat j) = Some b \<and> b < length h \<and> h2 ! a j = h ! b"
      by simp_all
    have a2: "coefficients (get I1 c2) = Some (a I1)" unfolding r2(1) g by (rule ac)
    have i2: "a j \<noteq> a I1" if "j \<in> {I2}" for j using that inj [of j I1] by auto
    from update_step_store [OF u1 a2 s(2) i2 r2(2,3,4)] have
      r1: "c1 = setBypassed I1 False c2" "length h1 = length h"
         "\<forall>x. (\<forall>j\<in>{I1, I2}. x \<noteq> a j) \<longrightarrow> h1 ! x = h ! x"
         "\<forall>j\<in>{I1, I2}. \<exists>b. array_get coeffs (Index_nat j) = Some b \<and> b < length h \<and> h1 ! a j = h ! b"
      by simp_all
    have a1: "coefficients (get I0 c1) = Some (a I0)" unfolding r1(1) r2(1) g by (rule ac)
    have i1: "a j \<noteq> a I0" if "j \<in> {I1, I2}" for j using that inj [of j I0] by auto
    from update_step_store [OF u0 a1 s(1) i1 r1(2,3,4)] have
      r: "length h' = length h" "\<forall>x. (\<forall>j\<in>{I0, I1, I2}. x \<noteq> a j) \<longrightarrow> h' ! x = h ! x"
         "\<forall>j\<in>{I0, I1, I2}. \<exists>b. array_get coeffs (Index_nat j) = Some b \<and> b < length h \<and> h' ! a j = h ! b"
      by simp_all
    have "i \<in> {I0, I1, I2} \<longleftrightarrow> Index_nat i \<le> Slope_index slope" for i
      using slope36 by (cases i) simp_all
    from final [OF this r] show ?thesis .
  next
    case slope48
    from run slope48 obtain c3 h3 c2 h2 c1 h1 where
      u3: "update I3 coeffs c h = Some (c3, h3)" and
      u2: "update I2 coeffs c3 h3 = Some (c2, h2)" and
      u1: "update I1 coeffs c2 h2 = Some (c1, h1)" and
      u0: "update I0 coeffs c1 h1 = Some (chain', h')"
      by (auto simp: UpdateCutFilter_def c_def bind_eq_Some_conv)
    have s: "array_get coeffs (Index_nat I0) \<noteq> Some (a j)"
        "array_get coeffs (Index_nat I1) \<noteq> Some (a j)"
        "array_get coeffs (Index_nat I2) \<noteq> Some (a j)"
        "array_get coeffs (Index_nat I3) \<noteq> Some (a j)" for j
      using sep [of I0 j] sep [of I1 j] sep [of I2 j] sep [of I3 j] slope48 by simp_all
    from update_step_store [OF u3 ac s(4) none start] have
      r3: "c3 = setBypassed I3 False c" "length h3 = length h"
         "\<forall>x. (\<forall>j\<in>{I3}. x \<noteq> a j) \<longrightarrow> h3 ! x = h ! x"
         "\<forall>j\<in>{I3}. \<exists>b. array_get coeffs (Index_nat j) = Some b \<and> b < length h \<and> h3 ! a j = h ! b"
      by simp_all
    have a3: "coefficients (get I2 c3) = Some (a I2)" unfolding r3(1) g by (rule ac)
    have i3: "a j \<noteq> a I2" if "j \<in> {I3}" for j using that inj [of j I2] by auto
    from update_step_store [OF u2 a3 s(3) i3 r3(2,3,4)] have
      r2: "c2 = setBypassed I2 False c3" "length h2 = length h"
         "\<forall>x. (\<forall>j\<in>{I2, I3}. x \<noteq> a j) \<longrightarrow> h2 ! x = h ! x"
         "\<forall>j\<in>{I2, I3}. \<exists>b. array_get coeffs (Index_nat j) = Some b \<and> b < length h \<and> h2 ! a j = h ! b"
      by simp_all
    have a2: "coefficients (get I1 c2) = Some (a I1)" unfolding r2(1) r3(1) g by (rule ac)
    have i2: "a j \<noteq> a I1" if "j \<in> {I2, I3}" for j using that inj [of j I1] by auto
    from update_step_store [OF u1 a2 s(2) i2 r2(2,3,4)] have
      r1: "c1 = setBypassed I1 False c2" "length h1 = length h"
         "\<forall>x. (\<forall>j\<in>{I1, I2, I3}. x \<noteq> a j) \<longrightarrow> h1 ! x = h ! x"
         "\<forall>j\<in>{I1, I2, I3}. \<exists>b. array_get coeffs (Index_nat j) = Some b \<and> b < length h \<and> h1 ! a j = h ! b"
      by simp_all
    have a1: "coefficients (get I0 c1) = Some (a I0)" unfolding r1(1) r2(1) r3(1) g by (rule ac)
    have i1: "a j \<noteq> a I0" if "j \<in> {I1, I2, I3}" for j using that inj [of j I0] by auto
    from update_step_store [OF u0 a1 s(1) i1 r1(2,3,4)] have
      r: "length h' = length h" "\<forall>x. (\<forall>j\<in>{I0, I1, I2, I3}. x \<noteq> a j) \<longrightarrow> h' ! x = h ! x"
         "\<forall>j\<in>{I0, I1, I2, I3}. \<exists>b. array_get coeffs (Index_nat j) = Some b \<and> b < length h \<and> h' ! a j = h ! b"
      by simp_all
    have "i \<in> {I0, I1, I2, I3} \<longleftrightarrow> Index_nat i \<le> Slope_index slope" for i
      using slope48 by (cases i) simp_all
    from final [OF this r] show ?thesis .
  qed
qed


lemma array_get_allocArray:
  assumes "allocArray cs h = (arr, h0)"
  shows "array_get arr k = (if k < length cs then Some (length h + k) else None)"
    and "h0 = h @ cs"
  using assms by (auto simp: allocArray_eq array_get_def)

lemma both_chains_store:
  assumes al: "allocArray cs h = (arr, h0)"
    and l: "UpdateCutFilter L arr slope h0 = Some (L', h1)"
    and r: "UpdateCutFilter R arr slope h1 = Some (R', h2)"
    and validL: "\<And>i. deref h (coefficients (get i L)) \<noteq> None"
    and validR: "\<And>i. deref h (coefficients (get i R)) \<noteq> None"
    and dist: "distinct (map (\<lambda>i. coefficients (get i L)) [I0, I1, I2, I3] @
                        map (\<lambda>i. coefficients (get i R)) [I0, I1, I2, I3])"
    and act: "Index_nat i \<le> Slope_index slope"
  shows "Index_nat i < length cs \<and>
         deref h2 (coefficients (get i L')) = Some (cs ! Index_nat i) \<and>
         deref h2 (coefficients (get i R')) = Some (cs ! Index_nat i)"
proof -
  define a where "a = (\<lambda>i. the (coefficients (get i L)))"
  define b where "b = (\<lambda>i. the (coefficients (get i R)))"
  have aL: "coefficients (get i L) = Some (a i)" and a_lt: "a i < length h" for i
    using validL [of i] by (auto simp: a_def deref_def split: option.splits if_splits)
  have bR: "coefficients (get i R) = Some (b i)" and b_lt: "b i < length h" for i
    using validR [of i] by (auto simp: b_def deref_def split: option.splits if_splits)
  have dist': "distinct ([a I0, a I1, a I2, a I3] @ [b I0, b I1, b I2, b I3])"
    using dist by (simp add: aL bR)
  have inj_a: "a i \<noteq> a j" if "i \<noteq> j" for i j
    using that dist' by (cases i; cases j) auto
  have inj_b: "b i \<noteq> b j" if "i \<noteq> j" for i j
    using that dist' by (cases i; cases j) auto
  have ab: "a i \<noteq> b j" for i j
    using dist' by (cases i; cases j) auto
  note arr = array_get_allocArray [OF al]
  have sep_a: "array_get arr (Index_nat j) \<noteq> Some (a i)" for i j
    using a_lt [of i] by (simp add: arr(1))
  have sep_b: "array_get arr (Index_nat j) \<noteq> Some (b i)" for i j
    using b_lt [of i] by (simp add: arr(1))
  from UpdateCutFilter_store [OF l aL sep_a inj_a] have
    l1: "\<forall>i. Index_nat i \<le> Slope_index slope \<longrightarrow>
            (\<exists>k. array_get arr (Index_nat i) = Some k \<and> k < length h0 \<and> h1 ! a i = h0 ! k)"
    and l2: "\<forall>x. (\<forall>i. x \<noteq> a i) \<longrightarrow> h1 ! x = h0 ! x"
    and l3: "length h1 = length h0"
    by blast+
  have bR1: "coefficients (get i R) = Some (b i)" for i by (rule bR)
  from UpdateCutFilter_store [OF r bR sep_b inj_b] have
    r1: "\<forall>i. Index_nat i \<le> Slope_index slope \<longrightarrow>
            (\<exists>k. array_get arr (Index_nat i) = Some k \<and> k < length h1 \<and> h2 ! b i = h1 ! k)"
    and r2: "\<forall>x. (\<forall>i. x \<noteq> b i) \<longrightarrow> h2 ! x = h1 ! x"
    and r3: "length h2 = length h1"
    by blast+
  from l1 act obtain k where k: "array_get arr (Index_nat i) = Some k" "h1 ! a i = h0 ! k"
    by blast
  from k(1) have lt: "Index_nat i < length cs" and kk: "k = length h + Index_nat i"
    by (simp_all add: arr(1) split: if_splits)
  have new: "h0 ! k = cs ! Index_nat i" using kk by (simp add: arr(2))
  have "h2 ! a i = h1 ! a i" using r2 ab by simp
  then have A: "h2 ! a i = cs ! Index_nat i" using k(2) new by simp
  from r1 act obtain k' where k': "array_get arr (Index_nat i) = Some k'" "h2 ! b i = h1 ! k'"
    by blast
  from k'(1) k(1) have "k' = k" by simp
  have "k \<noteq> a j" for j using a_lt [of j] kk by simp
  then have "h1 ! k = h0 ! k" using l2 by simp
  then have B: "h2 ! b i = cs ! Index_nat i" using k'(2) \<open>k' = k\<close> new by simp
  have len: "length h \<le> length h2" using r3 l3 arr(2) by simp
  have gL: "get i L' = get i L" using UpdateCutFilter_Some [OF l] by (simp only: get_flags)
  have gR: "get i R' = get i R" using UpdateCutFilter_Some [OF r] by (simp only: get_flags)
  have "deref h2 (coefficients (get i L')) = Some (cs ! Index_nat i)"
    using A a_lt [of i] len by (simp add: gL aL deref_def)
  moreover have "deref h2 (coefficients (get i R')) = Some (cs ! Index_nat i)"
    using B b_lt [of i] len by (simp add: gR bR deref_def)
  ultimately show ?thesis using lt by simp
qed


lemma order_case:
  "2 * (int (Slope_index slope) + 1)
     = (case slope of slope12 \<Rightarrow> 2 | slope24 \<Rightarrow> 4 | slope36 \<Rightarrow> 6 | slope48 \<Rightarrow> 8)"
  by (cases slope) simp_all

lemma updateLowCutFilter_coefficients:
  assumes run: "updateLowCutFilter lib cs p = Some p'"
    and validL: "\<forall>j. deref (coefficientStore p) (coefficients (get j (LowCut (lChain p)))) \<noteq> None"
    and validR: "\<forall>j. deref (coefficientStore p) (coefficients (get j (LowCut (rChain p)))) \<noteq> None"
    and dist: "distinct (map (\<lambda>j. coefficients (get j (LowCut (lChain p)))) [I0, I1, I2, I3] @
                        map (\<lambda>j. coefficients (get j (LowCut (rChain p)))) [I0, I1, I2, I3])"
    and act: "Index_nat i \<le> Slope_index (lowCutSlope cs)"
  shows "Index_nat i
           < length (designIIRHighpassHighOrderButterworthMethod lib (lowCutFrequency cs) (getSampleRate p)
               (case lowCutSlope cs of slope12 \<Rightarrow> 2 | slope24 \<Rightarrow> 4 | slope36 \<Rightarrow> 6 | slope48 \<Rightarrow> 8)) \<and>
         deref (coefficientStore p') (coefficients (get i (LowCut (lChain p'))))
           = Some (designIIRHighpassHighOrderButterworthMethod lib (lowCutFrequency cs) (getSampleRate p)
               (case lowCutSlope cs of slope12 \<Rightarrow> 2 | slope24 \<Rightarrow> 4 | slope36 \<Rightarrow> 6 | slope48 \<Rightarrow> 8)
               ! Index_nat i) \<and>
         deref (coefficientStore p') (coefficients (get i (LowCut (rChain p'))))
           = Some (designIIRHighpassHighOrderButterworthMethod lib (lowCutFrequency cs) (getSampleRate p)
               (case lowCutSlope cs of slope12 \<Rightarrow> 2 | slope24 \<Rightarrow> 4 | slope36 \<Rightarrow> 6 | slope48 \<Rightarrow> 8)
               ! Index_nat i)"
proof -
  let ?D = "designIIRHighpassHighOrderButterworthMethod lib (lowCutFrequency cs) (getSampleRate p)
      (2 * (int (Slope_index (lowCutSlope cs)) + 1))"
  obtain arr h0 where a: "allocArray ?D (coefficientStore p) = (arr, h0)"
    by (cases "allocArray ?D (coefficientStore p)")
  from run a obtain l h1 r h2 where
    l: "UpdateCutFilter (LowCut (lChain p)) arr (lowCutSlope cs) h0 = Some (l, h1)" and
    r: "UpdateCutFilter (LowCut (rChain p)) arr (lowCutSlope cs) h1 = Some (r, h2)" and
    p': "p' = p\<lparr>lChain := (lChain p)\<lparr>LowCut := l\<rparr>,
               rChain := (rChain p)\<lparr>LowCut := r\<rparr>, coefficientStore := h2\<rparr>"
    by (auto simp: updateLowCutFilter_def bind_eq_Some_conv)
  from both_chains_store [OF a l r validL [rule_format] validR [rule_format] dist act]
  have "Index_nat i < length ?D \<and>
      deref (coefficientStore p') (coefficients (get i (LowCut (lChain p'))))
        = Some (?D ! Index_nat i) \<and>
      deref (coefficientStore p') (coefficients (get i (LowCut (rChain p'))))
        = Some (?D ! Index_nat i)"
    by (simp add: p')
  then show ?thesis by (simp only: order_case)
qed

lemma updateHighCutFilter_coefficients:
  assumes run: "updateHighCutFilter lib cs p = Some p'"
    and validL: "\<forall>j. deref (coefficientStore p) (coefficients (get j (HighCut (lChain p)))) \<noteq> None"
    and validR: "\<forall>j. deref (coefficientStore p) (coefficients (get j (HighCut (rChain p)))) \<noteq> None"
    and dist: "distinct (map (\<lambda>j. coefficients (get j (HighCut (lChain p)))) [I0, I1, I2, I3] @
                        map (\<lambda>j. coefficients (get j (HighCut (rChain p)))) [I0, I1, I2, I3])"
    and act: "Index_nat i \<le> Slope_index (highCutSlope cs)"
  shows "Index_nat i
           < length (designIIRLowpassHighOrderButterworthMethod lib (highCutFrequency cs) (getSampleRate p)
               (case highCutSlope cs of slope12 \<Rightarrow> 2 | slope24 \<Rightarrow> 4 | slope36 \<Rightarrow> 6 | slope48 \<Rightarrow> 8)) \<and>
         deref (coefficientStore p') (coefficients (get i (HighCut (lChain p'))))
           = Some (designIIRLowpassHighOrderButterworthMethod lib (highCutFrequency cs) (getSampleRate p)
               (case highCutSlope cs of slope12 \<Rightarrow> 2 | slope24 \<Rightarrow> 4 | slope36 \<Rightarrow> 6 | slope48 \<Rightarrow> 8)
               ! Index_nat i) \<and>
         deref (coefficientStore p') (coefficients (get i (HighCut (rChain p'))))
           = Some (designIIRLowpassHighOrderButterworthMethod lib (highCutFrequency cs) (getSampleRate p)
               (case highCutSlope cs of slope12 \<Rightarrow> 2 | slope24 \<Rightarrow> 4 | slope36 \<Rightarrow> 6 | slope48 \<Rightarrow> 8)
               ! Index_nat i)"
proof -
  let ?D = "designIIRLowpassHighOrderButterworthMethod lib (highCutFrequency cs) (getSampleRate p)
      (2 * (int (Slope_index (highCutSlope cs)) + 1))"
  obtain arr h0 where a: "allocArray ?D (coefficientStore p) = (arr, h0)"
    by (cases "allocArray ?D (coefficientStore p)")
  from run a obtain l h1 r h2 where
    l: "UpdateCutFilter (HighCut (lChain p)) arr (highCutSlope cs) h0 = Some (l, h1)" and
    r: "UpdateCutFilter (HighCut (rChain p)) arr (highCutSlope cs) h1 = Some (r, h2)" and
    p': "p' = p\<lparr>lChain := (lChain p)\<lparr>HighCut := l\<rparr>,
               rChain := (rChain p)\<lparr>HighCut := r\<rparr>, coefficientStore := h2\<rparr>"
    by (auto simp: updateHighCutFilter_def bind_eq_Some_conv)
  from both_chains_store [OF a l r validL [rule_format] validR [rule_format] dist act]
  have "Index_nat i < length ?D \<and>
      deref (coefficientStore p') (coefficients (get i (HighCut (lChain p'))))
        = Some (?D ! Index_nat i) \<and>
      deref (coefficientStore p') (coefficients (get i (HighCut (rChain p'))))
        = Some (?D ! Index_nat i)"
    by (simp add: p')
  then show ?thesis by (simp only: order_case)
qed

text \<open>
  Claim C7. For every \<open>ChainSettings\<close> the low-cut factory asks the highpass Butterworth
  design for the order \<open>2 * (index of lowCutSlope + 1)\<close> and the high-cut factory asks
  the lowpass design for \<open>2 * (index of highCutSlope + 1)\<close>: 2 for \<open>slope12\<close>, 4 for
  \<open>slope24\<close>, 6 for \<open>slope36\<close> and 8 for \<open>slope48\<close>. This holds of
  \<open>makeLowCutFilter\<close> and \<open>makeHighCutFilter\<close>, and of \<open>updateLowCutFilter\<close> and
  \<open>updateHighCutFilter\<close>, which make the design call themselves: each of them is the
  update of both chains with the array designed at this order, and it uses the design at
  no other order. On a processor whose cut-filter stages point to eight different
  objects of the store, each active stage \<open>i\<close> of both chains then holds section \<open>i\<close>
  of the design at this order.
\<close>

theorem cut_filter_order:
  "makeLowCutFilter lib cs sampleRate
     = designIIRHighpassHighOrderButterworthMethod lib (lowCutFrequency cs) sampleRate
         (case lowCutSlope cs of slope12 \<Rightarrow> 2 | slope24 \<Rightarrow> 4 | slope36 \<Rightarrow> 6 | slope48 \<Rightarrow> 8) \<and>
   makeHighCutFilter lib cs sampleRate
     = designIIRLowpassHighOrderButterworthMethod lib (highCutFrequency cs) sampleRate
         (case highCutSlope cs of slope12 \<Rightarrow> 2 | slope24 \<Rightarrow> 4 | slope36 \<Rightarrow> 6 | slope48 \<Rightarrow> 8) \<and>
   (case slope of slope12 \<Rightarrow> 2 | slope24 \<Rightarrow> 4 | slope36 \<Rightarrow> 6 | slope48 \<Rightarrow> 8)
     = 2 * (int (Slope_index slope) + 1) \<and>
   updateLowCutFilter lib cs p
     = updateLowCutFilter
         (lib\<lparr>designIIRHighpassHighOrderButterworthMethod :=
            (\<lambda>frequency rate order.
               if order = 2 * (int (Slope_index (lowCutSlope cs)) + 1)
               then designIIRHighpassHighOrderButterworthMethod lib frequency rate order
               else [])\<rparr>) cs p \<and>
   updateHighCutFilter lib cs p
     = updateHighCutFilter
         (lib\<lparr>designIIRLowpassHighOrderButterworthMethod :=
            (\<lambda>frequency rate order.
               if order = 2 * (int (Slope_index (highCutSlope cs)) + 1)
               then designIIRLowpassHighOrderButterworthMethod lib frequency rate order
               else [])\<rparr>) cs p \<and>
   updateLowCutFilter lib cs p
     = (case allocArray
               (designIIRHighpassHighOrderButterworthMethod lib (lowCutFrequency cs)
                  (getSampleRate p)
                  (case lowCutSlope cs of
                     slope12 \<Rightarrow> 2 | slope24 \<Rightarrow> 4 | slope36 \<Rightarrow> 6 | slope48 \<Rightarrow> 8))
               (coefficientStore p) of
          (lowCutCoefficients, h0) \<Rightarrow> do {
            (leftLowCut, h1) \<leftarrow>
              UpdateCutFilter (LowCut (lChain p)) lowCutCoefficients (lowCutSlope cs) h0;
            (rightLowCut, h2) \<leftarrow>
              UpdateCutFilter (LowCut (rChain p)) lowCutCoefficients (lowCutSlope cs) h1;
            Some (p\<lparr>lChain := (lChain p)\<lparr>LowCut := leftLowCut\<rparr>,
                    rChain := (rChain p)\<lparr>LowCut := rightLowCut\<rparr>,
                    coefficientStore := h2\<rparr>)
          }) \<and>
   updateHighCutFilter lib cs p
     = (case allocArray
               (designIIRLowpassHighOrderButterworthMethod lib (highCutFrequency cs)
                  (getSampleRate p)
                  (case highCutSlope cs of
                     slope12 \<Rightarrow> 2 | slope24 \<Rightarrow> 4 | slope36 \<Rightarrow> 6 | slope48 \<Rightarrow> 8))
               (coefficientStore p) of
          (highCutCoefficients, h0) \<Rightarrow> do {
            (leftHighCut, h1) \<leftarrow>
              UpdateCutFilter (HighCut (lChain p)) highCutCoefficients (highCutSlope cs) h0;
            (rightHighCut, h2) \<leftarrow>
              UpdateCutFilter (HighCut (rChain p)) highCutCoefficients (highCutSlope cs) h1;
            Some (p\<lparr>lChain := (lChain p)\<lparr>HighCut := leftHighCut\<rparr>,
                    rChain := (rChain p)\<lparr>HighCut := rightHighCut\<rparr>,
                    coefficientStore := h2\<rparr>)
          }) \<and>
   ((\<forall>j. deref (coefficientStore p) (coefficients (get j (LowCut (lChain p)))) \<noteq> None) \<and>
    (\<forall>j. deref (coefficientStore p) (coefficients (get j (LowCut (rChain p)))) \<noteq> None) \<and>
    distinct (map (\<lambda>j. coefficients (get j (LowCut (lChain p)))) [I0, I1, I2, I3] @
              map (\<lambda>j. coefficients (get j (LowCut (rChain p)))) [I0, I1, I2, I3]) \<and>
    updateLowCutFilter lib cs p = Some p' \<and>
    Index_nat i \<le> Slope_index (lowCutSlope cs)
    \<longrightarrow>
    Index_nat i
      < length (designIIRHighpassHighOrderButterworthMethod lib (lowCutFrequency cs)
          (getSampleRate p)
          (case lowCutSlope cs of slope12 \<Rightarrow> 2 | slope24 \<Rightarrow> 4 | slope36 \<Rightarrow> 6 | slope48 \<Rightarrow> 8)) \<and>
    deref (coefficientStore p') (coefficients (get i (LowCut (lChain p'))))
      = Some (designIIRHighpassHighOrderButterworthMethod lib (lowCutFrequency cs)
          (getSampleRate p)
          (case lowCutSlope cs of slope12 \<Rightarrow> 2 | slope24 \<Rightarrow> 4 | slope36 \<Rightarrow> 6 | slope48 \<Rightarrow> 8)
          ! Index_nat i) \<and>
    deref (coefficientStore p') (coefficients (get i (LowCut (rChain p'))))
      = Some (designIIRHighpassHighOrderButterworthMethod lib (lowCutFrequency cs)
          (getSampleRate p)
          (case lowCutSlope cs of slope12 \<Rightarrow> 2 | slope24 \<Rightarrow> 4 | slope36 \<Rightarrow> 6 | slope48 \<Rightarrow> 8)
          ! Index_nat i)) \<and>
   ((\<forall>j. deref (coefficientStore p) (coefficients (get j (HighCut (lChain p)))) \<noteq> None) \<and>
    (\<forall>j. deref (coefficientStore p) (coefficients (get j (HighCut (rChain p)))) \<noteq> None) \<and>
    distinct (map (\<lambda>j. coefficients (get j (HighCut (lChain p)))) [I0, I1, I2, I3] @
              map (\<lambda>j. coefficients (get j (HighCut (rChain p)))) [I0, I1, I2, I3]) \<and>
    updateHighCutFilter lib cs p = Some p'' \<and>
    Index_nat i \<le> Slope_index (highCutSlope cs)
    \<longrightarrow>
    Index_nat i
      < length (designIIRLowpassHighOrderButterworthMethod lib (highCutFrequency cs)
          (getSampleRate p)
          (case highCutSlope cs of slope12 \<Rightarrow> 2 | slope24 \<Rightarrow> 4 | slope36 \<Rightarrow> 6 | slope48 \<Rightarrow> 8)) \<and>
    deref (coefficientStore p'') (coefficients (get i (HighCut (lChain p''))))
      = Some (designIIRLowpassHighOrderButterworthMethod lib (highCutFrequency cs)
          (getSampleRate p)
          (case highCutSlope cs of slope12 \<Rightarrow> 2 | slope24 \<Rightarrow> 4 | slope36 \<Rightarrow> 6 | slope48 \<Rightarrow> 8)
          ! Index_nat i) \<and>
    deref (coefficientStore p'') (coefficients (get i (HighCut (rChain p''))))
      = Some (designIIRLowpassHighOrderButterworthMethod lib (highCutFrequency cs)
          (getSampleRate p)
          (case highCutSlope cs of slope12 \<Rightarrow> 2 | slope24 \<Rightarrow> 4 | slope36 \<Rightarrow> 6 | slope48 \<Rightarrow> 8)
          ! Index_nat i))"
  (is "?make_low \<and> ?make_high \<and> ?orders \<and> ?only_low \<and> ?only_high \<and> ?body_low \<and>
       ?body_high \<and> ?stores_low \<and> ?stores_high")
proof -
  have 1: ?make_low
    by (cases "lowCutSlope cs") (simp_all add: makeLowCutFilter_def)
  have 2: ?make_high
    by (cases "highCutSlope cs") (simp_all add: makeHighCutFilter_def)
  have 3: ?orders
    by (cases slope) simp_all
  have 4: ?only_low
    by (simp add: updateLowCutFilter_def)
  have 5: ?only_high
    by (simp add: updateHighCutFilter_def)
  have 6: ?body_low
    unfolding updateLowCutFilter_def order_case [symmetric] by (simp add: split_def Let_def)
  have 7: ?body_high
    unfolding updateHighCutFilter_def order_case [symmetric] by (simp add: split_def Let_def)
  have 8: ?stores_low
  proof (intro impI, elim conjE)
    assume "\<forall>j. deref (coefficientStore p) (coefficients (get j (LowCut (lChain p)))) \<noteq> None"
      and "\<forall>j. deref (coefficientStore p) (coefficients (get j (LowCut (rChain p)))) \<noteq> None"
      and "distinct (map (\<lambda>j. coefficients (get j (LowCut (lChain p)))) [I0, I1, I2, I3] @
              map (\<lambda>j. coefficients (get j (LowCut (rChain p)))) [I0, I1, I2, I3])"
      and "updateLowCutFilter lib cs p = Some p'"
      and "Index_nat i \<le> Slope_index (lowCutSlope cs)"
    from updateLowCutFilter_coefficients [OF this(4) this(1) this(2) this(3) this(5)]
    show "Index_nat i
      < length (designIIRHighpassHighOrderButterworthMethod lib (lowCutFrequency cs)
          (getSampleRate p)
          (case lowCutSlope cs of slope12 \<Rightarrow> 2 | slope24 \<Rightarrow> 4 | slope36 \<Rightarrow> 6 | slope48 \<Rightarrow> 8)) \<and>
    deref (coefficientStore p') (coefficients (get i (LowCut (lChain p'))))
      = Some (designIIRHighpassHighOrderButterworthMethod lib (lowCutFrequency cs)
          (getSampleRate p)
          (case lowCutSlope cs of slope12 \<Rightarrow> 2 | slope24 \<Rightarrow> 4 | slope36 \<Rightarrow> 6 | slope48 \<Rightarrow> 8)
          ! Index_nat i) \<and>
    deref (coefficientStore p') (coefficients (get i (LowCut (rChain p'))))
      = Some (designIIRHighpassHighOrderButterworthMethod lib (lowCutFrequency cs)
          (getSampleRate p)
          (case lowCutSlope cs of slope12 \<Rightarrow> 2 | slope24 \<Rightarrow> 4 | slope36 \<Rightarrow> 6 | slope48 \<Rightarrow> 8)
          ! Index_nat i)" .
  qed
  have 9: ?stores_high
  proof (intro impI, elim conjE)
    assume "\<forall>j. deref (coefficientStore p) (coefficients (get j (HighCut (lChain p)))) \<noteq> None"
      and "\<forall>j. deref (coefficientStore p) (coefficients (get j (HighCut (rChain p)))) \<noteq> None"
      and "distinct (map (\<lambda>j. coefficients (get j (HighCut (lChain p)))) [I0, I1, I2, I3] @
              map (\<lambda>j. coefficients (get j (HighCut (rChain p)))) [I0, I1, I2, I3])"
      and "updateHighCutFilter lib cs p = Some p''"
      and "Index_nat i \<le> Slope_index (highCutSlope cs)"
    from updateHighCutFilter_coefficients [OF this(4) this(1) this(2) this(3) this(5)]
    show "Index_nat i
      < length (designIIRLowpassHighOrderButterworthMethod lib (highCutFrequency cs)
          (getSampleRate p)
          (case highCutSlope cs of slope12 \<Rightarrow> 2 | slope24 \<Rightarrow> 4 | slope36 \<Rightarrow> 6 | slope48 \<Rightarrow> 8)) \<and>
    deref (coefficientStore p'') (coefficients (get i (HighCut (lChain p''))))
      = Some (designIIRLowpassHighOrderButterworthMethod lib (highCutFrequency cs)
          (getSampleRate p)
          (case highCutSlope cs of slope12 \<Rightarrow> 2 | slope24 \<Rightarrow> 4 | slope36 \<Rightarrow> 6 | slope48 \<Rightarrow> 8)
          ! Index_nat i) \<and>
    deref (coefficientStore p'') (coefficients (get i (HighCut (rChain p''))))
      = Some (designIIRLowpassHighOrderButterworthMethod lib (highCutFrequency cs)
          (getSampleRate p)
          (case highCutSlope cs of slope12 \<Rightarrow> 2 | slope24 \<Rightarrow> 4 | slope36 \<Rightarrow> 6 | slope48 \<Rightarrow> 8)
          ! Index_nat i)" .
  qed
  from 1 2 3 4 5 6 7 8 9 show ?thesis by (intro conjI)
qed

text \<open>
  The processor as constructed, at a sample rate of 44100, with a low cut at 20 Hz and
  \<open>slope24\<close> and a high cut at 20000 Hz and \<open>slope36\<close>. The stand-in's sections show
  the order that was asked for: 4 for the low cut and 6 for the high cut.
\<close>

theorem cut_filter_order_witness:
  "(\<exists>p'. updateLowCutFilter probe_dsp
            (ChainSettings_init\<lparr>lowCutFrequency := 20, highCutFrequency := 20000,
               lowCutSlope := slope24, highCutSlope := slope36\<rparr>)
            (KGP_EQAudioProcessor_init\<lparr>getSampleRate := 44100\<rparr>) = Some p' \<and>
         deref (coefficientStore p') (coefficients (get I1 (LowCut (lChain p'))))
           = Some [20, 44100, 4, 1] \<and>
         deref (coefficientStore p') (coefficients (get I1 (LowCut (rChain p'))))
           = Some [20, 44100, 4, 1]) \<and>
   (\<exists>p''. updateHighCutFilter probe_dsp
            (ChainSettings_init\<lparr>lowCutFrequency := 20, highCutFrequency := 20000,
               lowCutSlope := slope24, highCutSlope := slope36\<rparr>)
            (KGP_EQAudioProcessor_init\<lparr>getSampleRate := 44100\<rparr>) = Some p'' \<and>
         deref (coefficientStore p'') (coefficients (get I2 (HighCut (lChain p''))))
           = Some [- 20000, 44100, 6, 2] \<and>
         deref (coefficientStore p'') (coefficients (get I2 (HighCut (rChain p''))))
           = Some [- 20000, 44100, 6, 2])"
proof -
  let ?cs = "ChainSettings_init\<lparr>lowCutFrequency := 20, highCutFrequency := 20000,
               lowCutSlope := slope24, highCutSlope := slope36\<rparr>"
  let ?p = "KGP_EQAudioProcessor_init\<lparr>getSampleRate := 44100\<rparr>"
  have "updateLowCutFilter probe_dsp ?cs ?p \<noteq> None" by code_simp
  then obtain p' where low: "updateLowCutFilter probe_dsp ?cs ?p = Some p'" by auto
  have "updateHighCutFilter probe_dsp ?cs ?p \<noteq> None" by code_simp
  then obtain p'' where high: "updateHighCutFilter probe_dsp ?cs ?p = Some p''" by auto
  have vLl: "\<forall>j. deref (coefficientStore ?p) (coefficients (get j (LowCut (lChain ?p)))) \<noteq> None"
    by (rule allI, case_tac j; hypsubst_thin; code_simp)
  have vLr: "\<forall>j. deref (coefficientStore ?p) (coefficients (get j (LowCut (rChain ?p)))) \<noteq> None"
    by (rule allI, case_tac j; hypsubst_thin; code_simp)
  have vHl: "\<forall>j. deref (coefficientStore ?p) (coefficients (get j (HighCut (lChain ?p)))) \<noteq> None"
    by (rule allI, case_tac j; hypsubst_thin; code_simp)
  have vHr: "\<forall>j. deref (coefficientStore ?p) (coefficients (get j (HighCut (rChain ?p)))) \<noteq> None"
    by (rule allI, case_tac j; hypsubst_thin; code_simp)
  have dL: "distinct (map (\<lambda>j. coefficients (get j (LowCut (lChain ?p)))) [I0, I1, I2, I3] @
              map (\<lambda>j. coefficients (get j (LowCut (rChain ?p)))) [I0, I1, I2, I3])"
    by code_simp
  have dH: "distinct (map (\<lambda>j. coefficients (get j (HighCut (lChain ?p)))) [I0, I1, I2, I3] @
              map (\<lambda>j. coefficients (get j (HighCut (rChain ?p)))) [I0, I1, I2, I3])"
    by code_simp
  have aL: "Index_nat I1 \<le> Slope_index (lowCutSlope ?cs)" by code_simp
  have aH: "Index_nat I2 \<le> Slope_index (highCutSlope ?cs)" by code_simp
  have eL: "designIIRHighpassHighOrderButterworthMethod probe_dsp (lowCutFrequency ?cs)
      (getSampleRate ?p)
      (case lowCutSlope ?cs of slope12 \<Rightarrow> 2 | slope24 \<Rightarrow> 4 | slope36 \<Rightarrow> 6 | slope48 \<Rightarrow> 8)
      ! Index_nat I1 = [20, 44100, 4, 1]"
    by code_simp
  have eH: "designIIRLowpassHighOrderButterworthMethod probe_dsp (highCutFrequency ?cs)
      (getSampleRate ?p)
      (case highCutSlope ?cs of slope12 \<Rightarrow> 2 | slope24 \<Rightarrow> 4 | slope36 \<Rightarrow> 6 | slope48 \<Rightarrow> 8)
      ! Index_nat I2 = [- 20000, 44100, 6, 2]"
    by code_simp
  note tL = cut_filter_order [where lib = probe_dsp and cs = ?cs and p = ?p and p' = p'
      and i = I1, THEN conjunct2, THEN conjunct2, THEN conjunct2, THEN conjunct2,
      THEN conjunct2, THEN conjunct2, THEN conjunct2, THEN conjunct1, THEN mp,
      OF conjI [OF vLl conjI [OF vLr conjI [OF dL conjI [OF low aL]]]]]
  note tH = cut_filter_order [where lib = probe_dsp and cs = ?cs and p = ?p and p'' = p''
      and i = I2, THEN conjunct2, THEN conjunct2, THEN conjunct2, THEN conjunct2,
      THEN conjunct2, THEN conjunct2, THEN conjunct2, THEN conjunct2, THEN mp,
      OF conjI [OF vHl conjI [OF vHr conjI [OF dH conjI [OF high aH]]]]]
  have L: "deref (coefficientStore p') (coefficients (get I1 (LowCut (lChain p'))))
           = Some [20, 44100, 4, 1] \<and>
         deref (coefficientStore p') (coefficients (get I1 (LowCut (rChain p'))))
           = Some [20, 44100, 4, 1]"
    using tL unfolding eL by (elim conjE) (intro conjI)
  have H: "deref (coefficientStore p'') (coefficients (get I2 (HighCut (lChain p''))))
           = Some [- 20000, 44100, 6, 2] \<and>
         deref (coefficientStore p'') (coefficients (get I2 (HighCut (rChain p''))))
           = Some [- 20000, 44100, 6, 2]"
    using tH unfolding eH by (elim conjE) (intro conjI)
  from low L high H show ?thesis by blast
qed

subsection \<open>The processor\<close>

lemma updateLowCutFilter_Some:
  assumes "updateLowCutFilter lib cs p = Some p'"
  shows "\<exists>l r h. p' = p\<lparr>lChain := (lChain p)\<lparr>LowCut := l\<rparr>,
                         rChain := (rChain p)\<lparr>LowCut := r\<rparr>, coefficientStore := h\<rparr> \<and>
           (\<forall>i. get i l = get i (LowCut (lChain p))) \<and>
           (\<forall>i. get i r = get i (LowCut (rChain p)))"
proof -
  obtain arr h0 where a: "allocArray (designIIRHighpassHighOrderButterworthMethod lib
      (lowCutFrequency cs) (getSampleRate p) (2 * (int (Slope_index (lowCutSlope cs)) + 1)))
      (coefficientStore p) = (arr, h0)"
    by (cases "allocArray (designIIRHighpassHighOrderButterworthMethod lib
      (lowCutFrequency cs) (getSampleRate p) (2 * (int (Slope_index (lowCutSlope cs)) + 1)))
      (coefficientStore p)")
  from assms a obtain l h1 r h2 where
    l: "UpdateCutFilter (LowCut (lChain p)) arr (lowCutSlope cs) h0 = Some (l, h1)" and
    r: "UpdateCutFilter (LowCut (rChain p)) arr (lowCutSlope cs) h1 = Some (r, h2)" and
    p': "p' = p\<lparr>lChain := (lChain p)\<lparr>LowCut := l\<rparr>,
               rChain := (rChain p)\<lparr>LowCut := r\<rparr>, coefficientStore := h2\<rparr>"
    by (auto simp: updateLowCutFilter_def bind_eq_Some_conv)
  have "get i l = get i (LowCut (lChain p))" for i
    using UpdateCutFilter_Some [OF l] by (simp only: get_flags)
  moreover have "get i r = get i (LowCut (rChain p))" for i
    using UpdateCutFilter_Some [OF r] by (simp only: get_flags)
  ultimately show ?thesis using p' by blast
qed

lemma updateHighCutFilter_Some:
  assumes "updateHighCutFilter lib cs p = Some p'"
  shows "\<exists>l r h. p' = p\<lparr>lChain := (lChain p)\<lparr>HighCut := l\<rparr>,
                         rChain := (rChain p)\<lparr>HighCut := r\<rparr>, coefficientStore := h\<rparr> \<and>
           (\<forall>i. get i l = get i (HighCut (lChain p))) \<and>
           (\<forall>i. get i r = get i (HighCut (rChain p)))"
proof -
  obtain arr h0 where a: "allocArray (designIIRLowpassHighOrderButterworthMethod lib
      (highCutFrequency cs) (getSampleRate p) (2 * (int (Slope_index (highCutSlope cs)) + 1)))
      (coefficientStore p) = (arr, h0)"
    by (cases "allocArray (designIIRLowpassHighOrderButterworthMethod lib
      (highCutFrequency cs) (getSampleRate p) (2 * (int (Slope_index (highCutSlope cs)) + 1)))
      (coefficientStore p)")
  from assms a obtain l h1 r h2 where
    l: "UpdateCutFilter (HighCut (lChain p)) arr (highCutSlope cs) h0 = Some (l, h1)" and
    r: "UpdateCutFilter (HighCut (rChain p)) arr (highCutSlope cs) h1 = Some (r, h2)" and
    p': "p' = p\<lparr>lChain := (lChain p)\<lparr>HighCut := l\<rparr>,
               rChain := (rChain p)\<lparr>HighCut := r\<rparr>, coefficientStore := h2\<rparr>"
    by (auto simp: updateHighCutFilter_def bind_eq_Some_conv)
  have "get i l = get i (HighCut (lChain p))" for i
    using UpdateCutFilter_Some [OF l] by (simp only: get_flags)
  moreover have "get i r = get i (HighCut (rChain p))" for i
    using UpdateCutFilter_Some [OF r] by (simp only: get_flags)
  ultimately show ?thesis using p' by blast
qed

lemma updatePeakFilter_Some:
  assumes "updatePeakFilter lib cs p = Some p'"
  shows "\<exists>h. p' = p\<lparr>coefficientStore := h\<rparr>"
proof -
  obtain pc h0 where a: "alloc (makePeakFilter lib (getSampleRate p) (peakFreq cs)
      (peakQuality cs) (decibelsToGain lib (peakGainInDB cs))) (coefficientStore p) = (pc, h0)"
    by (simp add: alloc_def)
  from assms a obtain pl h1 pr h2 where
    l: "updateCoefficients (coefficients (Peak (lChain p))) pc h0 = Some (pl, h1)" and
    r: "updateCoefficients (coefficients (Peak (rChain p))) pc h1 = Some (pr, h2)" and
    p': "p' = p\<lparr>lChain := (lChain p)\<lparr>Peak := (Peak (lChain p))\<lparr>coefficients := pl\<rparr>\<rparr>,
               rChain := (rChain p)\<lparr>Peak := (Peak (rChain p))\<lparr>coefficients := pr\<rparr>\<rparr>,
               coefficientStore := h2\<rparr>"
    by (auto simp: updatePeakFilter_def bind_eq_Some_conv)
  from updateCoefficients_Some [OF l] have "pl = coefficients (Peak (lChain p))" by auto
  moreover from updateCoefficients_Some [OF r] have "pr = coefficients (Peak (rChain p))" by auto
  ultimately have "p' = p\<lparr>coefficientStore := h2\<rparr>" using p' by simp
  then show ?thesis by blast
qed

lemma updateFilters_fifos:
  assumes "updateFilters lib p = Some p'"
  shows "leftChannelFifo p' = leftChannelFifo p \<and> rightChannelFifo p' = rightChannelFifo p"
proof -
  from assms obtain cs p1 p2 where
    1: "updateLowCutFilter lib cs p = Some p1" and
    2: "updatePeakFilter lib cs p1 = Some p2" and
    3: "updateHighCutFilter lib cs p2 = Some p'"
    by (auto simp: updateFilters_def bind_eq_Some_conv)
  from updateLowCutFilter_Some [OF 1]
  have "leftChannelFifo p1 = leftChannelFifo p \<and> rightChannelFifo p1 = rightChannelFifo p"
    by auto
  moreover from updatePeakFilter_Some [OF 2]
  have "leftChannelFifo p2 = leftChannelFifo p1 \<and> rightChannelFifo p2 = rightChannelFifo p1"
    by auto
  moreover from updateHighCutFilter_Some [OF 3]
  have "leftChannelFifo p' = leftChannelFifo p2 \<and> rightChannelFifo p' = rightChannelFifo p2"
    by auto
  ultimately show ?thesis by simp
qed

lemma clearChannels_shape:
  assumes "clearChannels is buffer = Some b"
  shows "getNumChannels b = getNumChannels buffer \<and> getNumSamples b = getNumSamples buffer"
  using assms
proof (induction "is" arbitrary: buffer)
  case Nil
  then show ?case by simp
next
  case (Cons i "is")
  from Cons.prems obtain b1 where
    1: "clearChannel i buffer = Some b1" and 2: "clearChannels is b1 = Some b"
    by (auto split: option.splits)
  from 1 have "getNumChannels b1 = getNumChannels buffer \<and> getNumSamples b1 = getNumSamples buffer"
    by (auto simp: clearChannel_def getNumChannels_def split: if_splits)
  with Cons.IH [OF 2] show ?case by simp
qed

lemma processBlock_Some:
  assumes "processBlock lib buffer p = Some (buffer', p')"
  shows "\<exists>buffer1 p1 lBlock rBlock l lOut r rOut.
      clearChannels [getTotalNumInputChannels p ..< getTotalNumOutputChannels p] buffer = Some buffer1 \<and>
      updateFilters lib p = Some p1 \<and>
      getSingleChannelBlock buffer1 0 = Some lBlock \<and>
      getSingleChannelBlock buffer1 1 = Some rBlock \<and>
      MonoChain_process lib (coefficientStore p1) (lChain p1) lBlock = Some (l, lOut) \<and>
      MonoChain_process lib (coefficientStore p1) (rChain p1) rBlock = Some (r, rOut) \<and>
      buffer' = buffer1\<lparr>channelData := (channelData buffer1)[0 := lOut, 1 := rOut]\<rparr> \<and>
      p' = p1\<lparr>lChain := l, rChain := r\<rparr>"
  using assms by (auto simp: processBlock_def bind_eq_Some_conv)

text \<open>
  Claim C6, as amended. \<open>UpdateCutFilter\<close> changes no filter of the chain: every stage
  keeps its history and its pointer, whether it was active before the call or not, and so
  \<open>updateLowCutFilter\<close> keeps the history of every stage of both low-cut chains. Across
  a change of the slope from 12 to 24 dB per octave the history of stage 0 is kept, and
  so is the history of the newly activated stage 1, which is not cleared.
\<close>

theorem UpdateCutFilter_keeps_history:
  "(UpdateCutFilter chain coeffs slope h = Some (chain', h') \<longrightarrow>
      state (get i chain') = state (get i chain) \<and>
      coefficients (get i chain') = coefficients (get i chain)) \<and>
   (updateLowCutFilter lib cs p = Some p' \<longrightarrow>
      state (get i (LowCut (lChain p'))) = state (get i (LowCut (lChain p))) \<and>
      state (get i (LowCut (rChain p'))) = state (get i (LowCut (rChain p))))"
proof (intro conjI impI)
  assume "UpdateCutFilter chain coeffs slope h = Some (chain', h')"
  from UpdateCutFilter_Some [OF this]
  have "get i chain' = get i chain" by (simp only: get_flags)
  then show "state (get i chain') = state (get i chain)"
    and "coefficients (get i chain') = coefficients (get i chain)"
    by simp_all
next
  assume "updateLowCutFilter lib cs p = Some p'"
  from updateLowCutFilter_Some [OF this] obtain l r h where
    "p' = p\<lparr>lChain := (lChain p)\<lparr>LowCut := l\<rparr>,
            rChain := (rChain p)\<lparr>LowCut := r\<rparr>, coefficientStore := h\<rparr>"
    "get i l = get i (LowCut (lChain p))" "get i r = get i (LowCut (rChain p))"
    by blast
  then show "state (get i (LowCut (lChain p'))) = state (get i (LowCut (lChain p)))"
    and "state (get i (LowCut (rChain p'))) = state (get i (LowCut (rChain p)))"
    by simp_all
qed

text \<open>
  A chain at 12 dB per octave whose stages 0 and 1 hold the histories \<open>[3, 4]\<close> and
  \<open>[5, 7]\<close>, updated to \<open>slope24\<close>; and the processor as constructed, its low cut
  updated to \<open>slope24\<close>.
\<close>

theorem UpdateCutFilter_keeps_history_witness:
  "UpdateCutFilter
     \<lparr>filter0 = \<lparr>coefficients = Some 0, state = [3, 4]\<rparr>,
      filter1 = \<lparr>coefficients = Some 1, state = [5, 7]\<rparr>,
      filter2 = \<lparr>coefficients = Some 2, state = [0, 0]\<rparr>,
      filter3 = \<lparr>coefficients = Some 3, state = [0, 0]\<rparr>,
      bypassed0 = False, bypassed1 = True, bypassed2 = True, bypassed3 = True\<rparr>
     [Some 4, Some 5] slope24 [[1], [1], [1], [1], [5], [6]]
   = Some (\<lparr>filter0 = \<lparr>coefficients = Some 0, state = [3, 4]\<rparr>,
            filter1 = \<lparr>coefficients = Some 1, state = [5, 7]\<rparr>,
            filter2 = \<lparr>coefficients = Some 2, state = [0, 0]\<rparr>,
            filter3 = \<lparr>coefficients = Some 3, state = [0, 0]\<rparr>,
            bypassed0 = False, bypassed1 = False, bypassed2 = True, bypassed3 = True\<rparr>,
           [[5], [6], [1], [1], [5], [6]]) \<and>
   state (get I0 \<lparr>filter0 = \<lparr>coefficients = Some 0, state = [3, 4]\<rparr>,
            filter1 = \<lparr>coefficients = Some 1, state = [5, 7]\<rparr>,
            filter2 = \<lparr>coefficients = Some 2, state = [0, 0]\<rparr>,
            filter3 = \<lparr>coefficients = Some 3, state = [0, 0]\<rparr>,
            bypassed0 = False, bypassed1 = False, bypassed2 = True, bypassed3 = True\<rparr>) = [3, 4] \<and>
   state (get I1 \<lparr>filter0 = \<lparr>coefficients = Some 0, state = [3, 4]\<rparr>,
            filter1 = \<lparr>coefficients = Some 1, state = [5, 7]\<rparr>,
            filter2 = \<lparr>coefficients = Some 2, state = [0, 0]\<rparr>,
            filter3 = \<lparr>coefficients = Some 3, state = [0, 0]\<rparr>,
            bypassed0 = False, bypassed1 = False, bypassed2 = True, bypassed3 = True\<rparr>) = [5, 7] \<and>
   (\<exists>p'. updateLowCutFilter example_dsp (ChainSettings_init\<lparr>lowCutSlope := slope24\<rparr>)
            KGP_EQAudioProcessor_init = Some p' \<and>
         state (get I1 (LowCut (lChain p')))
           = state (get I1 (LowCut (lChain KGP_EQAudioProcessor_init))) \<and>
         state (get I1 (LowCut (rChain p')))
           = state (get I1 (LowCut (rChain KGP_EQAudioProcessor_init))))"
proof -
  let ?chain = "\<lparr>filter0 = \<lparr>coefficients = Some 0, state = [3, 4]\<rparr>,
      filter1 = \<lparr>coefficients = Some 1, state = [5, 7]\<rparr>,
      filter2 = \<lparr>coefficients = Some 2, state = [0, 0]\<rparr>,
      filter3 = \<lparr>coefficients = Some 3, state = [0, 0]\<rparr>,
      bypassed0 = False, bypassed1 = True, bypassed2 = True, bypassed3 = True\<rparr>"
  let ?cs = "ChainSettings_init\<lparr>lowCutSlope := slope24\<rparr>"
  have r: "UpdateCutFilter ?chain [Some 4, Some 5] slope24 [[1], [1], [1], [1], [5], [6]]
      = Some (?chain\<lparr>bypassed1 := False\<rparr>, [[5], [6], [1], [1], [5], [6]])"
    by code_simp
  have "updateLowCutFilter example_dsp ?cs KGP_EQAudioProcessor_init \<noteq> None"
    by code_simp
  then obtain p' where u: "updateLowCutFilter example_dsp ?cs KGP_EQAudioProcessor_init = Some p'"
    by auto
  note t0 = UpdateCutFilter_keeps_history [THEN conjunct1, rule_format, OF r, of I0]
  note t1 = UpdateCutFilter_keeps_history [THEN conjunct1, rule_format, OF r, of I1]
  note t2 = UpdateCutFilter_keeps_history [THEN conjunct2, rule_format, OF u, of I1]
  have a: "state (get I0 (?chain\<lparr>bypassed1 := False\<rparr>)) = [3, 4]"
    using t0 by simp
  have b: "state (get I1 (?chain\<lparr>bypassed1 := False\<rparr>)) = [5, 7]"
    using t1 by simp
  have c: "\<exists>p'. updateLowCutFilter example_dsp ?cs KGP_EQAudioProcessor_init = Some p' \<and>
         state (get I1 (LowCut (lChain p')))
           = state (get I1 (LowCut (lChain KGP_EQAudioProcessor_init))) \<and>
         state (get I1 (LowCut (rChain p')))
           = state (get I1 (LowCut (rChain KGP_EQAudioProcessor_init)))"
    using u t2 by blast
  from r a b c show ?thesis by simp
qed

text \<open>
  Claim C6 as stated fails for the newly activated stage. A chain at 12 dB per octave
  (stage 0 active, the others bypassed) whose stage 1 holds the history \<open>[5, 7]\<close> of an
  earlier use: after the update to \<open>slope24\<close> stage 1 is active and its history is
  still \<open>[5, 7]\<close>, not zero.
\<close>

theorem newly_activated_stage_not_cleared_counterexample:
  "map_option (\<lambda>(c, h). (isBypassed I0 c, state (get I0 c), isBypassed I1 c, state (get I1 c)))
     (UpdateCutFilter
        \<lparr>filter0 = \<lparr>coefficients = Some 0, state = [3, 4]\<rparr>,
         filter1 = \<lparr>coefficients = Some 1, state = [5, 7]\<rparr>,
         filter2 = \<lparr>coefficients = Some 2, state = [0, 0]\<rparr>,
         filter3 = \<lparr>coefficients = Some 3, state = [0, 0]\<rparr>,
         bypassed0 = False, bypassed1 = True, bypassed2 = True, bypassed3 = True\<rparr>
        [Some 4, Some 5] slope24 [[1], [1], [1], [1], [5], [6]])
   = Some (False, [3, 4], False, [5, 7])"
  by code_simp

text \<open>
  Claim C2, as amended. In a processing cycle \<open>processBlock\<close> clears the output channels
  that have no input, updates the filters, and runs the left chain over channel 0 and
  the right chain over channel 1 of the buffer, in place, with the updated coefficients;
  the processor keeps the new state of both chains. It feeds no sample fifo: when it
  returns, \<open>leftChannelFifo\<close> and \<open>rightChannelFifo\<close> are what they were before the
  call, and the buffer has the shape it had.
\<close>

theorem processBlock_leaves_fifos:
  assumes "processBlock lib buffer p = Some (buffer', p')"
  shows "\<exists>buffer1 p1 lOut rOut.
           clearChannels [getTotalNumInputChannels p ..< getTotalNumOutputChannels p] buffer
             = Some buffer1 \<and>
           updateFilters lib p = Some p1 \<and>
           2 \<le> getNumChannels buffer1 \<and>
           MonoChain_process lib (coefficientStore p1) (lChain p1)
               (take (getNumSamples buffer1) (channelData buffer1 ! 0))
             = Some (lChain p', lOut) \<and>
           MonoChain_process lib (coefficientStore p1) (rChain p1)
               (take (getNumSamples buffer1) (channelData buffer1 ! 1))
             = Some (rChain p', rOut) \<and>
           channelData buffer' = (channelData buffer1)[0 := lOut, 1 := rOut] \<and>
           channelData buffer' ! 0 = lOut \<and> channelData buffer' ! 1 = rOut \<and>
           coefficientStore p' = coefficientStore p1 \<and>
           leftChannelFifo p' = leftChannelFifo p \<and> rightChannelFifo p' = rightChannelFifo p \<and>
           getNumChannels buffer' = getNumChannels buffer \<and>
           getNumSamples buffer' = getNumSamples buffer"
proof -
  from processBlock_Some [OF assms] obtain buffer1 p1 lBlock rBlock l lOut r rOut where
    c: "clearChannels [getTotalNumInputChannels p ..< getTotalNumOutputChannels p] buffer
          = Some buffer1" and
    u: "updateFilters lib p = Some p1" and
    g0: "getSingleChannelBlock buffer1 0 = Some lBlock" and
    g1: "getSingleChannelBlock buffer1 1 = Some rBlock" and
    m0: "MonoChain_process lib (coefficientStore p1) (lChain p1) lBlock = Some (l, lOut)" and
    m1: "MonoChain_process lib (coefficientStore p1) (rChain p1) rBlock = Some (r, rOut)" and
    b: "buffer' = buffer1\<lparr>channelData := (channelData buffer1)[0 := lOut, 1 := rOut]\<rparr>" and
    p': "p' = p1\<lparr>lChain := l, rChain := r\<rparr>"
    by blast
  from g1 have n: "2 \<le> getNumChannels buffer1"
    and rB: "rBlock = take (getNumSamples buffer1) (channelData buffer1 ! 1)"
    by (auto simp: getSingleChannelBlock_def split: if_splits)
  from g0 have lB: "lBlock = take (getNumSamples buffer1) (channelData buffer1 ! 0)"
    by (auto simp: getSingleChannelBlock_def split: if_splits)
  have len: "2 \<le> length (channelData buffer1)" using n by (simp add: getNumChannels_def)
  have f: "leftChannelFifo p' = leftChannelFifo p \<and> rightChannelFifo p' = rightChannelFifo p"
    using updateFilters_fifos [OF u] p' by simp
  have s: "getNumChannels buffer' = getNumChannels buffer \<and>
        getNumSamples buffer' = getNumSamples buffer"
    using clearChannels_shape [OF c] b by (simp add: getNumChannels_def)
  have d: "channelData buffer' = (channelData buffer1)[0 := lOut, 1 := rOut]"
    using b by simp
  have len': "0 < length (channelData buffer1)" "1 < length (channelData buffer1)"
    using len by linarith+
  have d0: "channelData buffer' ! 0 = lOut" and d1: "channelData buffer' ! 1 = rOut"
    using len' by (simp_all add: d)
  have m0': "MonoChain_process lib (coefficientStore p1) (lChain p1)
               (take (getNumSamples buffer1) (channelData buffer1 ! 0)) = Some (lChain p', lOut)"
    using m0 lB p' by simp
  have m1': "MonoChain_process lib (coefficientStore p1) (rChain p1)
               (take (getNumSamples buffer1) (channelData buffer1 ! 1)) = Some (rChain p', rOut)"
    using m1 rB p' by simp
  have st: "coefficientStore p' = coefficientStore p1" using p' by simp
  from c u n m0' m1' d d0 d1 st f s show ?thesis by blast
qed

text \<open>
  The processor as constructed, at a sample rate of 44100 and with both sample fifos
  prepared for blocks of two samples, and a stereo buffer of two samples. With the
  stand-in whose active filters double their input, the three active stages of each chain
  (stage 0 of the low cut, the peak, stage 0 of the high cut) multiply each sample by 8,
  and both fifos are as they were prepared.
\<close>

theorem processBlock_leaves_fifos_witness:
  "\<exists>buffer' p'.
     processBlock probe_dsp \<lparr>getNumSamples = 2, channelData = [[1, 2], [3, 4]]\<rparr>
       (KGP_EQAudioProcessor_init
          \<lparr>leftChannelFifo := prepare 2 (SingleChannelSampleFifo_init Left),
           rightChannelFifo := prepare 2 (SingleChannelSampleFifo_init Right),
           getSampleRate := 44100\<rparr>)
     = Some (buffer', p') \<and>
     channelData buffer' = [[8, 16], [24, 32]] \<and>
     state (filter0 (LowCut (lChain p'))) = [1, 2] \<and>
     state (filter0 (LowCut (rChain p'))) = [3, 4] \<and>
     leftChannelFifo p' = prepare 2 (SingleChannelSampleFifo_init Left) \<and>
     rightChannelFifo p' = prepare 2 (SingleChannelSampleFifo_init Right) \<and>
     getNumChannels buffer' = 2 \<and> getNumSamples buffer' = 2"
proof -
  let ?buffer = "\<lparr>getNumSamples = 2, channelData = [[1, 2], [3, 4]]\<rparr>"
  let ?p = "KGP_EQAudioProcessor_init
          \<lparr>leftChannelFifo := prepare 2 (SingleChannelSampleFifo_init Left),
           rightChannelFifo := prepare 2 (SingleChannelSampleFifo_init Right),
           getSampleRate := 44100\<rparr>"
  have e: "map_option (\<lambda>(b, q). (channelData b, state (filter0 (LowCut (lChain q))),
        state (filter0 (LowCut (rChain q))))) (processBlock probe_dsp ?buffer ?p)
      = Some ([[8, 16], [24, 32]], [1, 2], [3, 4])"
    by code_simp
  then obtain buffer' p' where r: "processBlock probe_dsp ?buffer ?p = Some (buffer', p')"
    by auto
  from e r have v: "channelData buffer' = [[8, 16], [24, 32]]"
      "state (filter0 (LowCut (lChain p'))) = [1, 2]"
      "state (filter0 (LowCut (rChain p'))) = [3, 4]"
    by simp_all
  from processBlock_leaves_fifos [OF r] have
    "leftChannelFifo p' = leftChannelFifo ?p \<and> rightChannelFifo p' = rightChannelFifo ?p \<and>
     getNumChannels buffer' = getNumChannels ?buffer \<and>
     getNumSamples buffer' = getNumSamples ?buffer"
    by blast
  then have "leftChannelFifo p' = prepare 2 (SingleChannelSampleFifo_init Left) \<and>
     rightChannelFifo p' = prepare 2 (SingleChannelSampleFifo_init Right) \<and>
     getNumChannels buffer' = 2 \<and> getNumSamples buffer' = 2"
    by (simp add: getNumChannels_def)
  with r v show ?thesis by blast
qed

text \<open>
  Claim C2 as stated fails. The processor as constructed, with both sample fifos prepared
  for blocks of two samples, and a stereo buffer of two samples: after \<open>processBlock\<close>
  both fifos are still at index 0, while feeding the two samples of the block (what
  \<open>update\<close> does) puts a fifo at index 2.
\<close>

theorem processBlock_feeds_fifos_counterexample:
  "map_option (\<lambda>(b, p'). (fifoIndex (leftChannelFifo p'), fifoIndex (rightChannelFifo p')))
     (processBlock example_dsp \<lparr>getNumSamples = 2, channelData = [[1, 2], [3, 4]]\<rparr>
        (KGP_EQAudioProcessor_init
           \<lparr>leftChannelFifo := prepare 2 (SingleChannelSampleFifo_init Left),
            rightChannelFifo := prepare 2 (SingleChannelSampleFifo_init Right)\<rparr>))
     = Some (0, 0) \<and>
   map_option fifoIndex
     (update_fifo \<lparr>getNumSamples = 2, channelData = [[1, 2], [3, 4]]\<rparr>
        (prepare 2 (SingleChannelSampleFifo_init Left))) = Some 2 \<and>
   map_option fifoIndex
     (update_fifo \<lparr>getNumSamples = 2, channelData = [[1, 2], [3, 4]]\<rparr>
        (prepare 2 (SingleChannelSampleFifo_init Right))) = Some 2"
  by code_simp

text \<open>
  Claim C8. \<open>isBusesLayoutSupported\<close> accepts the mono layout, whatever the two
  preprocessor symbols are, and \<open>processBlock\<close> takes the view of channel 1 on every
  call: on a buffer with fewer than two channels it has no defined result.
\<close>

theorem processBlock_needs_two_channels:
  "isBusesLayoutSupported isMidiEffect isSynth
     \<lparr>getMainInputChannelSet = mono, getMainOutputChannelSet = mono\<rparr> \<and>
   (getNumChannels buffer < 2 \<longrightarrow> processBlock lib buffer p = None)"
proof (intro conjI impI)
  show "isBusesLayoutSupported isMidiEffect isSynth
     \<lparr>getMainInputChannelSet = mono, getMainOutputChannelSet = mono\<rparr>"
    by (simp add: isBusesLayoutSupported_def)
next
  assume lt: "getNumChannels buffer < 2"
  show "processBlock lib buffer p = None"
  proof (rule ccontr)
    assume "processBlock lib buffer p \<noteq> None"
    then obtain buffer' p' where "processBlock lib buffer p = Some (buffer', p')" by auto
    from processBlock_Some [OF this] obtain buffer1 rBlock where
      c: "clearChannels [getTotalNumInputChannels p ..< getTotalNumOutputChannels p] buffer
            = Some buffer1" and
      g: "getSingleChannelBlock buffer1 1 = Some rBlock"
      by blast
    from g have "1 < getNumChannels buffer1"
      by (simp add: getSingleChannelBlock_def split: if_splits)
    with clearChannels_shape [OF c] lt show False by simp
  qed
qed

text \<open>
  The processor as constructed and a mono buffer of two samples; on a stereo buffer the
  same call returns.
\<close>

theorem processBlock_needs_two_channels_witness:
  "isBusesLayoutSupported False False
     \<lparr>getMainInputChannelSet = mono, getMainOutputChannelSet = mono\<rparr> \<and>
   getNumChannels \<lparr>getNumSamples = 2, channelData = [[1, 2]]\<rparr> < 2 \<and>
   processBlock example_dsp \<lparr>getNumSamples = 2, channelData = [[1, 2]]\<rparr>
     KGP_EQAudioProcessor_init = None \<and>
   processBlock example_dsp \<lparr>getNumSamples = 2, channelData = [[1, 2], [3, 4]]\<rparr>
     KGP_EQAudioProcessor_init \<noteq> None"
proof -
  have lt: "getNumChannels \<lparr>getNumSamples = 2, channelData = [[1, 2]]\<rparr> < 2"
    by (simp add: getNumChannels_def)
  have ok: "processBlock example_dsp \<lparr>getNumSamples = 2, channelData = [[1, 2], [3, 4]]\<rparr>
     KGP_EQAudioProcessor_init \<noteq> None"
    by code_simp
  note t = processBlock_needs_two_channels [of False False
      "\<lparr>getNumSamples = 2, channelData = [[1, 2]]\<rparr>" example_dsp KGP_EQAudioProcessor_init]
  from t lt ok show ?thesis by blast
qed

end
